theory Spec2Isabelle
  imports Main
begin

section \<open>Errors raised by the template compiler and by rendered code\<close>

text \<open>
  Every exception of the source is a value. The five \<open>ValueError\<close>s of
  \<open>split_tag_args_string\<close> are kept apart, since each has its own message;
  the argument they carry is the string (and the count) the message is formatted with.
\<close>

datatype error =
    ClosingUnopenParenthesis string
  | UnclosedDoubleQuote string
  | UnclosedSingleQuote string
  | UnclosedParenthesis int string
  | UnusedEscaping string
  | InExpected
  | UnpackError nat
  | UnexpectedToken string
  | DuplicateBlockError string
  | IOError string
  | KeyError string
  | TypeError
  | IndexError
  | AttributeError string
  | ZeroDivisionError
  | RecursionError
  | NameError string
  | InvalidLiteral string
  | OutOfFuel

section \<open>The tag argument splitter (utils/parser.py, split_tag_args_string)\<close>

definition dquote :: char where "dquote = CHR 0x22"
definition squote_chr :: char where "squote_chr = CHR 0x27"
definition bslash :: char where "bslash = CHR 0x5C"
definition lparen :: char where "lparen = CHR 0x28"
definition rparen :: char where "rparen = CHR 0x29"
definition space :: char where "space = CHR 0x20"

text \<open>The local variables of the loop.\<close>

record split_state =
  args :: "string list"
  current :: string
  escaped :: bool
  quote :: bool
  squote :: bool
  parens :: int

definition split_init :: split_state where
  "split_init = \<lparr>args = [], current = [], escaped = False, quote = False,
                  squote = False, parens = 0\<rparr>"

text \<open>
  \<open>if current[0] == current[-1] and current[0] in ('"', "'"): current = current[1:-1]\<close>,
  followed by \<open>''.join(current)\<close>. It is only reached with a non-empty \<open>current\<close>;
  the slice \<open>[1:-1]\<close> of a one-element list is empty.
\<close>

definition strip_quotes :: "string \<Rightarrow> string" where
  "strip_quotes cur =
     (if cur \<noteq> [] \<and> hd cur = last cur \<and> (hd cur = dquote \<or> hd cur = squote_chr)
      then butlast (tl cur) else cur)"

text \<open>The final \<open>current.append(c)\<close> of the loop body.\<close>

definition append_chr :: "split_state \<Rightarrow> char \<Rightarrow> split_state" where
  "append_chr st c = st\<lparr>current := current st @ [c]\<rparr>"

text \<open>One iteration of \<open>for c in s\<close>; \<open>s\<close> is only used in the error message.\<close>

definition split_step :: "string \<Rightarrow> split_state \<Rightarrow> char \<Rightarrow> error + split_state" where
  "split_step s st c =
     (if escaped st then
        Inr (st\<lparr>escaped := False, current := current st @ [bslash, c]\<rparr>)
      else if c = dquote then
        Inr (append_chr (if \<not> squote st then st\<lparr>quote := \<not> quote st\<rparr> else st) c)
      else if c = squote_chr then
        Inr (append_chr (if \<not> quote st then st\<lparr>squote := \<not> squote st\<rparr> else st) c)
      else if c = lparen then
        Inr (append_chr (if \<not> quote st \<and> \<not> squote st
                         then st\<lparr>parens := parens st + 1\<rparr> else st) c)
      else if c = rparen then
        (if \<not> quote st \<and> \<not> squote st then
           (if parens st \<le> 0 then Inl (ClosingUnopenParenthesis s)
            else Inr (append_chr (st\<lparr>parens := parens st - 1\<rparr>) c))
         else Inr (append_chr st c))
      else if c = bslash then
        Inr (st\<lparr>escaped := True\<rparr>)
      else if c = space then
        (if \<not> quote st \<and> \<not> squote st \<and> parens st = 0 then
           (if current st \<noteq> [] then
              Inr (st\<lparr>args := args st @ [strip_quotes (current st)], current := []\<rparr>)
            else Inr st)
         else Inr (append_chr st c))
      else Inr (append_chr st c))"

fun split_loop :: "string \<Rightarrow> split_state \<Rightarrow> string \<Rightarrow> error + split_state" where
  "split_loop s st [] = Inr st"
| "split_loop s st (c # cs) =
     (case split_step s st c of Inl e \<Rightarrow> Inl e | Inr st' \<Rightarrow> split_loop s st' cs)"

text \<open>
  The code after the loop. When none of the four error conditions holds although the
  first test failed (a negative \<open>parens\<close>, which the loop never produces), the source
  falls through to \<open>return args\<close>.
\<close>

definition split_finish :: "string \<Rightarrow> split_state \<Rightarrow> error + string list" where
  "split_finish s st =
     (if \<not> escaped st \<and> \<not> quote st \<and> \<not> squote st \<and> parens st = 0 then
        (if current st \<noteq> [] then Inr (args st @ [strip_quotes (current st)])
         else Inr (args st))
      else if quote st then Inl (UnclosedDoubleQuote s)
      else if squote st then Inl (UnclosedSingleQuote s)
      else if parens st > 0 then Inl (UnclosedParenthesis (parens st) s)
      else if escaped st then Inl (UnusedEscaping s)
      else Inr (args st))"

definition split_tag_args_string :: "string \<Rightarrow> error + string list" where
  "split_tag_args_string s =
     (case split_loop s split_init s of Inl e \<Rightarrow> Inl e | Inr st \<Rightarrow> split_finish s st)"

section \<open>The generated syntax tree\<close>

text \<open>
  The compiler emits Python \<open>ast\<close> nodes. Only the node classes the sources construct
  are modelled; source positions (\<open>update_source_pos\<close>) and the \<open>ctx\<close> fields do not
  influence execution and are left out, except that a \<open>Store\<close> context is visible as
  the target position of \<open>For_stmt\<close>. \<open>ast.Num\<close> of a float keeps the literal's text.
\<close>

datatype binop = Add | Sub | Mult | Div | Mod

datatype cmpop = Eq | NotEq | Lt | LtE | Gt | GtE | In | NotIn | IsNot | Is

datatype expr =
    Num int
  | NumFloat string
  | Str string
  | Name string
  | List_expr "expr list"
  | Attribute expr string
  | Subscript expr expr
  | BinOp expr binop expr
  | Compare expr cmpop expr
  | Call expr "expr list" "(string \<times> expr) list"

datatype stmt =
    Yield expr
  | YieldFrom expr
  | If_stmt expr "stmt list" "stmt list"
  | For_stmt expr expr "stmt list" "stmt list"
  | Pass

datatype funcdef = FunctionDef (fname: string) (fbody: "stmt list")

datatype class_item = CPass | CFun funcdef

record klass =
  cname :: string
  bases :: "string list"
  cbody :: "class_item list"

section \<open>Helpers of utils/parser.py\<close>

definition build_call :: "expr \<Rightarrow> expr list \<Rightarrow> (string \<times> expr) list \<Rightarrow> expr" where
  "build_call func as kws = Call func as kws"

definition build_yield :: "expr \<Rightarrow> stmt" where
  "build_yield v = Yield v"

text \<open>
  \<open>build_yield_from\<close>: the branch taken when \<open>ast\<close> has \<open>YieldFrom\<close>,
  \<open>yield from self.<name>(context)\<close>.
\<close>

definition build_yield_from :: "string \<Rightarrow> stmt" where
  "build_yield_from name =
     YieldFrom (build_call (Attribute (Name ''self'') name) [Name ''context''] [])"

text \<open>
  \<open>build_function\<close>: the parameters are always \<open>(self, context)\<close>; the body starts
  with \<open>yield ''\<close>.
\<close>

definition build_function :: "string \<Rightarrow> stmt list \<Rightarrow> funcdef" where
  "build_function name body = FunctionDef name ([build_yield (Str [])] @ body)"

definition get_filter_func :: "expr \<Rightarrow> expr" where
  "get_filter_func name = Subscript (Name ''filters'') name"

definition get_lookup_name :: "expr list \<Rightarrow> expr" where
  "get_lookup_name names = build_call (Attribute (Str ''.'') ''join'') [List_expr names] []"

section \<open>The expression parser (parser.py)\<close>

text \<open>
  The token names of the grammar. A token is its name and its text (\<open>getstr()\<close>).
  The expression lexer is not part of the sources, so the parser is modelled on token
  sequences.
\<close>

datatype tok =
    COMMA | ASSIGN | PIPE | AND | OR
  | EQUAL | NEQUAL | LT | LTE | GT | GTE | IN | NOTIN | ISNOT | IS
  | PLUS | MINUS | MUL | DIV | MOD
  | LSQB | RSQB | DOT | LPAREN | RPAREN
  | NAME | NUMBER | STRING | COLON

type_synonym token = "tok \<times> string"

datatype assoc = Left | Right

text \<open>The \<open>precedence\<close> argument of \<open>rply.ParserGenerator\<close>, lowest level first.\<close>

definition precedence :: "(assoc \<times> tok list) list" where
  "precedence =
     [(Left, [COMMA]),
      (Right, [ASSIGN]),
      (Left, [PIPE]),
      (Left, [AND, OR]),
      (Left, [EQUAL, NEQUAL, LT, LTE, GT, GTE, IN, NOTIN, ISNOT, IS]),
      (Left, [PLUS, MINUS]),
      (Left, [MUL, DIV, MOD]),
      (Left, [LSQB, RSQB]),
      (Left, [DOT]),
      (Left, [LPAREN, RPAREN])]"

text \<open>
  rply numbers the levels from 1; a terminal that is not listed has \<open>("right", 0)\<close>.
\<close>

fun prec_lookup :: "(assoc \<times> tok list) list \<Rightarrow> nat \<Rightarrow> tok \<Rightarrow> assoc \<times> nat" where
  "prec_lookup [] n t = (Right, 0)"
| "prec_lookup ((a, ts) # rest) n t =
     (if t \<in> set ts then (a, n) else prec_lookup rest (Suc n) t)"

definition prec :: "tok \<Rightarrow> assoc \<times> nat" where
  "prec t = prec_lookup precedence 1 t"

text \<open>
  The resolution of a shift/reduce conflict by the generated parser: with a complete
  right-hand side whose rightmost terminal is \<open>rule_tok\<close> on the stack and the
  lookahead \<open>la\<close>, the parser reduces when the lookahead's level is lower, or equal
  with left associativity, and shifts otherwise. \<open>None\<close> stands for a position where
  no reduction is possible.
\<close>

definition shifts :: "tok option \<Rightarrow> tok \<Rightarrow> bool" where
  "shifts pending la =
     (case pending of
        None \<Rightarrow> True
      | Some rule_tok \<Rightarrow>
          (let (ra, rlevel) = prec rule_tok; (sa, slevel) = prec la
           in \<not> (slevel < rlevel \<or> (slevel = rlevel \<and> ra = Left))))"

subsection \<open>Productions\<close>

definition binop_mapping :: "tok \<Rightarrow> binop option" where
  "binop_mapping t =
     (if t = PLUS then Some Add else if t = MINUS then Some Sub
      else if t = MUL then Some Mult else if t = DIV then Some Div
      else if t = MOD then Some Mod else None)"

definition cmpop_mapping :: "tok \<Rightarrow> cmpop option" where
  "cmpop_mapping t =
     (if t = EQUAL then Some Eq else if t = NEQUAL then Some NotEq
      else if t = LT then Some Lt else if t = LTE then Some LtE
      else if t = GT then Some Gt else if t = GTE then Some GtE
      else if t = IN then Some In else if t = NOTIN then Some NotIn
      else if t = ISNOT then Some IsNot else if t = IS then Some Is
      else None)"

definition arg_list_append :: "expr list \<Rightarrow> expr \<Rightarrow> expr list" where
  "arg_list_append arg_list a = arg_list @ [a]"

definition expr_DOT_NAME :: "expr \<Rightarrow> string \<Rightarrow> expr" where
  "expr_DOT_NAME lterm rterm = Attribute lterm rterm"

definition expr_binop :: "expr \<Rightarrow> binop \<Rightarrow> expr \<Rightarrow> expr" where
  "expr_binop lterm operator rterm = BinOp lterm operator rterm"

definition expr_cmpop :: "expr \<Rightarrow> cmpop \<Rightarrow> expr \<Rightarrow> expr" where
  "expr_cmpop lterm operator rterm = Compare lterm operator rterm"

text \<open>A reduced \<open>filter\<close> is the triple \<open>(filter_func, args, kwargs)\<close>.\<close>

type_synonym filter_val = "expr \<times> expr list \<times> (string \<times> expr) list"

definition expr_filter :: "expr \<Rightarrow> filter_val \<Rightarrow> expr" where
  "expr_filter a f = (case f of (filt, as, kws) \<Rightarrow> build_call filt ([a] @ as) kws)"

definition expr_binop_paren :: "expr \<Rightarrow> expr" where
  "expr_binop_paren e = e"

definition expr_SUBSCRIPT :: "expr \<Rightarrow> expr \<Rightarrow> expr" where
  "expr_SUBSCRIPT src subscript = Subscript src subscript"

definition expr_empty_call :: "expr \<Rightarrow> expr" where
  "expr_empty_call func = build_call func [] []"

definition expr_args_call :: "expr \<Rightarrow> expr list \<Rightarrow> expr" where
  "expr_args_call func as = build_call func as []"

definition expr_kwargs_call :: "expr \<Rightarrow> (string \<times> expr) list \<Rightarrow> expr" where
  "expr_kwargs_call func kws = build_call func [] kws"

definition expr_full_call :: "expr \<Rightarrow> expr list \<Rightarrow> (string \<times> expr) list \<Rightarrow> expr" where
  "expr_full_call func as kws = build_call func as kws"

definition filter_colon_arg :: "expr list \<Rightarrow> expr \<Rightarrow> filter_val" where
  "filter_colon_arg filt a = (get_filter_func (get_lookup_name filt), [a], [])"

definition filter_pipe_lookup_name :: "expr list \<Rightarrow> filter_val" where
  "filter_pipe_lookup_name filt = (get_filter_func (get_lookup_name filt), [], [])"

definition filter_pipe_lookup_empty_call :: "expr list \<Rightarrow> filter_val" where
  "filter_pipe_lookup_empty_call filt = (get_filter_func (get_lookup_name filt), [], [])"

definition filter_pipe_lookup_args_call :: "expr list \<Rightarrow> expr list \<Rightarrow> filter_val" where
  "filter_pipe_lookup_args_call filt as = (get_filter_func (get_lookup_name filt), as, [])"

definition filter_pipe_lookup_kwargs_call ::
  "expr list \<Rightarrow> (string \<times> expr) list \<Rightarrow> filter_val" where
  "filter_pipe_lookup_kwargs_call filt kws = (get_filter_func (get_lookup_name filt), [], kws)"

definition filter_pipe_lookup_full_call ::
  "expr list \<Rightarrow> expr list \<Rightarrow> (string \<times> expr) list \<Rightarrow> filter_val" where
  "filter_pipe_lookup_full_call filt as kws = (get_filter_func (get_lookup_name filt), as, kws)"

definition kwarg_assignment :: "string \<Rightarrow> expr \<Rightarrow> string \<times> expr" where
  "kwarg_assignment name e = (name, e)"

definition kwarg_list_append ::
  "(string \<times> expr) list \<Rightarrow> string \<times> expr \<Rightarrow> (string \<times> expr) list" where
  "kwarg_list_append kwarg_list kw = kwarg_list @ [kw]"

definition lookup_name_NAME :: "string \<Rightarrow> expr list" where
  "lookup_name_NAME s = [Str s]"

definition lookup_name_append :: "expr list \<Rightarrow> string \<Rightarrow> expr list" where
  "lookup_name_append lookup_name name = lookup_name @ [Str name]"

definition name_NAME :: "string \<Rightarrow> expr" where
  "name_NAME s = Subscript (Name ''context'') (Str s)"

text \<open>\<open>int(number)\<close> on a string of decimal digits; anything else is a \<open>ValueError\<close>.\<close>

definition digit_val :: "char \<Rightarrow> int option" where
  "digit_val c =
     (let n = (of_char c :: nat)
      in if 48 \<le> n \<and> n \<le> 57 then Some (int n - 48) else None)"

fun int_of_digits :: "int \<Rightarrow> string \<Rightarrow> int option" where
  "int_of_digits acc [] = Some acc"
| "int_of_digits acc (c # cs) =
     (case digit_val c of None \<Rightarrow> None | Some d \<Rightarrow> int_of_digits (10 * acc + d) cs)"

definition number_NUMBER :: "string \<Rightarrow> error + expr" where
  "number_NUMBER number =
     (if CHR ''.'' \<in> set number \<or> CHR ''e'' \<in> set number \<or> CHR ''E'' \<in> set number
      then Inr (NumFloat number)
      else (case (if number = [] then None else int_of_digits 0 number) of
              None \<Rightarrow> Inl (InvalidLiteral number)
            | Some n \<Rightarrow> Inr (Num n)))"

definition string_STRING :: "string \<Rightarrow> expr" where
  "string_STRING s = Str (butlast (tl s))"

subsection \<open>The parser\<close>

text \<open>
  rply builds an LALR table from the productions and resolves its conflicts with the
  precedence table. The table generator is a library; the parser is modelled by a
  recursive descent over the same productions that takes every shift/reduce decision
  between a complete binary rule and a continuation token with \<open>shifts\<close>. The
  functions carry a recursion budget: each call hands on one less, and every second
  call at the latest has consumed a token, so \<open>fp_parse\<close> starts with twice the
  number of tokens plus two. \<open>@pg.error\<close> raises \<open>ValueError\<close> for a token without an
  action.
\<close>

definition unexpected :: "token list \<Rightarrow> error" where
  "unexpected toks =
     (case toks of [] \<Rightarrow> UnexpectedToken ''$end'' | (t, s) # r \<Rightarrow> UnexpectedToken s)"

text \<open>\<open>literal : name | number | string\<close>\<close>

definition parse_literal :: "token list \<Rightarrow> error + (expr \<times> token list)" where
  "parse_literal toks =
     (case toks of
        [] \<Rightarrow> Inl (unexpected toks)
      | (t, s) # r \<Rightarrow>
          if t = NAME then Inr (name_NAME s, r)
          else if t = NUMBER then
            (case number_NUMBER s of Inl e \<Rightarrow> Inl e | Inr n \<Rightarrow> Inr (n, r))
          else if t = STRING then Inr (string_STRING s, r)
          else Inl (unexpected toks))"

text \<open>\<open>lookup_name : NAME | lookup_name DOT NAME\<close>, after the first \<open>NAME\<close>.\<close>

fun lookup_name_rest :: "expr list \<Rightarrow> token list \<Rightarrow> error + (expr list \<times> token list)" where
  "lookup_name_rest acc [] = Inr (acc, [])"
| "lookup_name_rest acc [x] =
     (if fst x = DOT then Inl (unexpected []) else Inr (acc, [x]))"
| "lookup_name_rest acc (x # y # r) =
     (if fst x = DOT then
        (if fst y = NAME then lookup_name_rest (lookup_name_append acc (snd y)) r
         else Inl (unexpected (y # r)))
      else Inr (acc, x # y # r))"

text \<open>The tokens that can follow a complete \<open>expr\<close> inside a longer \<open>expr\<close>.\<close>

definition continues :: "tok \<Rightarrow> bool" where
  "continues t =
     (binop_mapping t \<noteq> None \<or> cmpop_mapping t \<noteq> None \<or> t = DOT \<or> t = LSQB
      \<or> t = LPAREN \<or> t = PIPE)"

definition is_kwarg_start :: "token list \<Rightarrow> bool" where
  "is_kwarg_start toks =
     (case toks of x # y # r \<Rightarrow> fst x = NAME \<and> fst y = ASSIGN | _ \<Rightarrow> False)"

text \<open>
  The four call productions; an \<open>arg_list\<close> or \<open>kwarg_list\<close> that is present is not
  empty, so the lists tell which production reduces.
\<close>

definition apply_call :: "expr \<Rightarrow> expr list \<times> (string \<times> expr) list \<Rightarrow> expr" where
  "apply_call func c =
     (case c of (as, kws) \<Rightarrow>
        if as = [] \<and> kws = [] then expr_empty_call func
        else if kws = [] then expr_args_call func as
        else if as = [] then expr_kwargs_call func kws
        else expr_full_call func as kws)"

definition apply_filter_call :: "expr list \<Rightarrow> expr list \<times> (string \<times> expr) list \<Rightarrow> filter_val" where
  "apply_filter_call filt c =
     (case c of (as, kws) \<Rightarrow>
        if as = [] \<and> kws = [] then filter_pipe_lookup_empty_call filt
        else if kws = [] then filter_pipe_lookup_args_call filt as
        else if as = [] then filter_pipe_lookup_kwargs_call filt kws
        else filter_pipe_lookup_full_call filt as kws)"

type_synonym expr_parser = "tok option \<Rightarrow> token list \<Rightarrow> error + (expr \<times> token list)"
type_synonym rest_parser = "tok option \<Rightarrow> expr \<Rightarrow> token list \<Rightarrow> error + (expr \<times> token list)"
type_synonym call_parser =
  "expr list \<Rightarrow> token list \<Rightarrow> error + ((expr list \<times> (string \<times> expr) list) \<times> token list)"
type_synonym kwargs_parser =
  "(string \<times> expr) list \<Rightarrow> token list \<Rightarrow> error + ((string \<times> expr) list \<times> token list)"
type_synonym filter_parser = "token list \<Rightarrow> error + (filter_val \<times> token list)"

text \<open>
  Each body below is one level of the descent; its first arguments are the parsers of
  the next level (with one unit less of budget).
\<close>

text \<open>After \<open>LPAREN expr\<close>, \<open>expr LSQB expr\<close>: the closing token \<open>close\<close> must follow.\<close>

definition expect_then ::
  "tok \<Rightarrow> token list \<Rightarrow> (token list \<Rightarrow> error + 'a) \<Rightarrow> error + 'a" where
  "expect_then close toks k =
     (case toks of
        [] \<Rightarrow> Inl (unexpected toks)
      | y # r \<Rightarrow> if fst y = close then k r else Inl (unexpected toks))"

text \<open>\<open>expr : literal | LPAREN expr RPAREN\<close>, then whatever continues the expression.\<close>

definition parse_expr_body :: "expr_parser \<Rightarrow> rest_parser \<Rightarrow> expr_parser" where
  "parse_expr_body p_expr p_rest pending toks =
     (case toks of
        [] \<Rightarrow> Inl (unexpected toks)
      | x # r \<Rightarrow>
          if fst x = LPAREN then
            (case p_expr None r of
               Inl e \<Rightarrow> Inl e
             | Inr (e, r') \<Rightarrow>
                 expect_then RPAREN r' (\<lambda>r''. p_rest pending (expr_binop_paren e) r''))
          else
            (case parse_literal toks of
               Inl e \<Rightarrow> Inl e
             | Inr (l, r') \<Rightarrow> p_rest pending l r'))"

text \<open>\<open>expr : expr PLUS expr\<close> and the other four arithmetic productions.\<close>

definition rest_binop ::
  "expr_parser \<Rightarrow> rest_parser \<Rightarrow> tok option \<Rightarrow> expr \<Rightarrow> tok \<Rightarrow> binop \<Rightarrow> token list
     \<Rightarrow> error + (expr \<times> token list)" where
  "rest_binop p_expr p_rest pending l t operator r =
     (case p_expr (Some t) r of
        Inl e \<Rightarrow> Inl e
      | Inr (rterm, r') \<Rightarrow> p_rest pending (expr_binop l operator rterm) r')"

text \<open>\<open>expr : expr EQUAL expr\<close> and the other nine comparison productions.\<close>

definition rest_cmpop ::
  "expr_parser \<Rightarrow> rest_parser \<Rightarrow> tok option \<Rightarrow> expr \<Rightarrow> tok \<Rightarrow> cmpop \<Rightarrow> token list
     \<Rightarrow> error + (expr \<times> token list)" where
  "rest_cmpop p_expr p_rest pending l t operator r =
     (case p_expr (Some t) r of
        Inl e \<Rightarrow> Inl e
      | Inr (rterm, r') \<Rightarrow> p_rest pending (expr_cmpop l operator rterm) r')"

text \<open>\<open>expr : expr DOT NAME\<close>\<close>

definition rest_dot ::
  "rest_parser \<Rightarrow> tok option \<Rightarrow> expr \<Rightarrow> token list \<Rightarrow> error + (expr \<times> token list)" where
  "rest_dot p_rest pending l r =
     (case r of
        [] \<Rightarrow> Inl (unexpected r)
      | y # r' \<Rightarrow>
          if fst y = NAME then p_rest pending (expr_DOT_NAME l (snd y)) r'
          else Inl (unexpected r))"

text \<open>\<open>expr : expr LSQB expr RSQB\<close>\<close>

definition rest_subscript ::
  "expr_parser \<Rightarrow> rest_parser \<Rightarrow> tok option \<Rightarrow> expr \<Rightarrow> token list
     \<Rightarrow> error + (expr \<times> token list)" where
  "rest_subscript p_expr p_rest pending l r =
     (case p_expr None r of
        Inl e \<Rightarrow> Inl e
      | Inr (e, r') \<Rightarrow>
          expect_then RSQB r' (\<lambda>r''. p_rest pending (expr_SUBSCRIPT l e) r''))"

text \<open>\<open>expr : expr LPAREN RPAREN\<close> and the three calls with arguments.\<close>

definition rest_call ::
  "rest_parser \<Rightarrow> call_parser \<Rightarrow> tok option \<Rightarrow> expr \<Rightarrow> token list
     \<Rightarrow> error + (expr \<times> token list)" where
  "rest_call p_rest p_call pending l r =
     (case r of
        [] \<Rightarrow> Inl (unexpected r)
      | y # r' \<Rightarrow>
          if fst y = RPAREN then p_rest pending (expr_empty_call l) r'
          else
            (case p_call [] r of
               Inl e \<Rightarrow> Inl e
             | Inr (c, r'') \<Rightarrow> p_rest pending (apply_call l c) r''))"

text \<open>\<open>expr : expr filter\<close>\<close>

definition rest_filter ::
  "rest_parser \<Rightarrow> filter_parser \<Rightarrow> tok option \<Rightarrow> expr \<Rightarrow> token list
     \<Rightarrow> error + (expr \<times> token list)" where
  "rest_filter p_rest p_filter pending l r =
     (case p_filter r of
        Inl e \<Rightarrow> Inl e
      | Inr (f, r') \<Rightarrow> p_rest pending (expr_filter l f) r')"

text \<open>
  A complete \<open>expr\<close> \<open>l\<close> is on the stack. A token that cannot continue it, or one that
  loses against the pending rule, ends this operand.
\<close>

definition parse_rest_body ::
  "expr_parser \<Rightarrow> rest_parser \<Rightarrow> call_parser \<Rightarrow> filter_parser \<Rightarrow> rest_parser" where
  "parse_rest_body p_expr p_rest p_call p_filter pending l toks =
     (case toks of
        [] \<Rightarrow> Inr (l, toks)
      | x # r \<Rightarrow>
          if \<not> continues (fst x) \<or> \<not> shifts pending (fst x) then Inr (l, toks)
          else
            (case binop_mapping (fst x) of
               Some operator \<Rightarrow> rest_binop p_expr p_rest pending l (fst x) operator r
             | None \<Rightarrow>
                 (case cmpop_mapping (fst x) of
                    Some operator \<Rightarrow> rest_cmpop p_expr p_rest pending l (fst x) operator r
                  | None \<Rightarrow>
                      if fst x = DOT then rest_dot p_rest pending l r
                      else if fst x = LSQB then rest_subscript p_expr p_rest pending l r
                      else if fst x = LPAREN then rest_call p_rest p_call pending l r
                      else rest_filter p_rest p_filter pending l r)))"

text \<open>
  \<open>arg_list : arg | arg_list COMMA arg\<close> up to the closing parenthesis, with an optional
  \<open>kwarg_list\<close> at the end. \<open>arg_list_arg\<close> returns the one-element list, which is
  \<open>arg_list_append\<close> on the empty list.
\<close>

definition parse_call_list_body ::
  "expr_parser \<Rightarrow> call_parser \<Rightarrow> kwargs_parser \<Rightarrow> call_parser" where
  "parse_call_list_body p_expr p_call p_kwargs as toks =
     (if is_kwarg_start toks then
        (case p_kwargs [] toks of
           Inl e \<Rightarrow> Inl e
         | Inr (kws, r) \<Rightarrow> Inr ((as, kws), r))
      else
        (case p_expr None toks of
           Inl e \<Rightarrow> Inl e
         | Inr (a, r) \<Rightarrow>
             (case r of
                [] \<Rightarrow> Inl (unexpected r)
              | y # r' \<Rightarrow>
                  if fst y = COMMA then p_call (arg_list_append as a) r'
                  else if fst y = RPAREN then Inr ((arg_list_append as a, []), r')
                  else Inl (unexpected r))))"

text \<open>\<open>kwarg_list : kwarg | kwarg_list COMMA kwarg\<close>, \<open>kwarg : NAME ASSIGN expr\<close>.\<close>

definition parse_kwargs_body :: "expr_parser \<Rightarrow> kwargs_parser \<Rightarrow> kwargs_parser" where
  "parse_kwargs_body p_expr p_kwargs acc toks =
     (case toks of
        [] \<Rightarrow> Inl (unexpected toks)
      | x # r0 \<Rightarrow>
          if fst x \<noteq> NAME then Inl (unexpected toks)
          else
            expect_then ASSIGN r0 (\<lambda>r.
              case p_expr None r of
                Inl e \<Rightarrow> Inl e
              | Inr (v, r') \<Rightarrow>
                  (case r' of
                     [] \<Rightarrow> Inl (unexpected r')
                   | z # r'' \<Rightarrow>
                       if fst z = COMMA
                       then p_kwargs (kwarg_list_append acc (kwarg_assignment (snd x) v)) r''
                       else if fst z = RPAREN
                       then Inr (kwarg_list_append acc (kwarg_assignment (snd x) v), r'')
                       else Inl (unexpected r'))))"

text \<open>The six \<open>filter\<close> productions, after \<open>PIPE\<close>.\<close>

definition parse_filter_body :: "call_parser \<Rightarrow> filter_parser" where
  "parse_filter_body p_call toks =
     (case toks of
        [] \<Rightarrow> Inl (unexpected toks)
      | x # r \<Rightarrow>
          if fst x \<noteq> NAME then Inl (unexpected toks)
          else
            (case lookup_name_rest (lookup_name_NAME (snd x)) r of
               Inl e \<Rightarrow> Inl e
             | Inr (filt, r') \<Rightarrow>
                 (case r' of
                    [] \<Rightarrow> Inr (filter_pipe_lookup_name filt, r')
                  | y # r'' \<Rightarrow>
                      if fst y = COLON then
                        (case parse_literal r'' of
                           Inl e \<Rightarrow> Inl e
                         | Inr (a, r3) \<Rightarrow> Inr (filter_colon_arg filt a, r3))
                      else if fst y = LPAREN then
                        (case r'' of
                           [] \<Rightarrow> Inl (unexpected r'')
                         | z # r3 \<Rightarrow>
                             if fst z = RPAREN
                             then Inr (filter_pipe_lookup_empty_call filt, r3)
                             else
                               (case p_call [] r'' of
                                  Inl e \<Rightarrow> Inl e
                                | Inr (c, r4) \<Rightarrow> Inr (apply_filter_call filt c, r4)))
                      else Inr (filter_pipe_lookup_name filt, r'))))"

text \<open>The five mutually recursive parsers with a budget of \<open>n\<close> nested calls.\<close>

function (sequential) parse_expr :: "nat \<Rightarrow> expr_parser"
  and parse_rest :: "nat \<Rightarrow> rest_parser"
  and parse_call_list :: "nat \<Rightarrow> call_parser"
  and parse_kwargs :: "nat \<Rightarrow> kwargs_parser"
  and parse_filter :: "nat \<Rightarrow> filter_parser"
where
  "parse_expr 0 pending toks = Inl OutOfFuel"
| "parse_expr (Suc n) pending toks =
     parse_expr_body (\<lambda>p t. parse_expr n p t) (\<lambda>p l t. parse_rest n p l t) pending toks"
| "parse_rest 0 pending l toks = Inl OutOfFuel"
| "parse_rest (Suc n) pending l toks =
     parse_rest_body (\<lambda>p t. parse_expr n p t) (\<lambda>p l t. parse_rest n p l t)
       (\<lambda>as t. parse_call_list n as t) (\<lambda>t. parse_filter n t) pending l toks"
| "parse_call_list 0 as toks = Inl OutOfFuel"
| "parse_call_list (Suc n) as toks =
     parse_call_list_body (\<lambda>p t. parse_expr n p t) (\<lambda>as t. parse_call_list n as t)
       (\<lambda>acc t. parse_kwargs n acc t) as toks"
| "parse_kwargs 0 acc toks = Inl OutOfFuel"
| "parse_kwargs (Suc n) acc toks =
     parse_kwargs_body (\<lambda>p t. parse_expr n p t) (\<lambda>acc t. parse_kwargs n acc t) acc toks"
| "parse_filter 0 toks = Inl OutOfFuel"
| "parse_filter (Suc n) toks = parse_filter_body (\<lambda>as t. parse_call_list n as t) toks"
  by pat_completeness auto

termination
  by (relation "measure (case_sum (case_sum fst fst) (case_sum fst (case_sum fst fst)))")
    simp_all

text \<open>\<open>parsers.fp.parse\<close>: one expression, then the end of the token stream.\<close>

definition fp_parse :: "token list \<Rightarrow> error + expr" where
  "fp_parse toks =
     (case parse_expr (2 * length toks + 2) None toks of
        Inl e \<Rightarrow> Inl e
      | Inr (e, r) \<Rightarrow> if r = [] then Inr e else Inl (unexpected r))"

section \<open>Running the generated code\<close>

text \<open>
  The generated module is executed by Python. The part of Python's semantics that the
  generated nodes need is modelled here. The values a template can meet are numbers,
  strings and lists, callables of the host application (known by a name), and three
  objects the generated code names directly: the caller's context mapping, the filter
  table, and the bound method \<open>sep.join\<close> that \<open>get_lookup_name\<close> calls. A float is
  kept as the text of its literal.
\<close>

datatype val =
    VNone
  | VBool bool
  | VInt int
  | VFloat string
  | VStr string
  | VList "val list"
  | VFun string
  | VContext
  | VFilters
  | VJoin string

type_synonym render_context = "string \<rightharpoonup> val"

text \<open>
  The collaborators of the core: the filter table, the behaviour of host callables
  (among them \<open>auto_escape\<close>), attribute and item access on host values, and the
  operators on operands other than two integers. They do not see the context.
\<close>

record host =
  filter_table :: "string \<rightharpoonup> val"
  call_fun :: "string \<Rightarrow> val list \<Rightarrow> (string \<times> val) list \<Rightarrow> error + val"
  get_attribute :: "val \<Rightarrow> string \<Rightarrow> error + val"
  get_item :: "val \<Rightarrow> val \<Rightarrow> error + val"
  binop_other :: "binop \<Rightarrow> val \<Rightarrow> val \<Rightarrow> error + val"
  compare_vals :: "cmpop \<Rightarrow> val \<Rightarrow> val \<Rightarrow> error + val"

fun bind_err :: "error + 'a \<Rightarrow> ('a \<Rightarrow> error + 'b) \<Rightarrow> error + 'b" where
  "bind_err (Inl e) f = Inl e"
| "bind_err (Inr x) f = f x"

text \<open>The global names of the generated module, and the parameter \<open>context\<close>.\<close>

definition eval_name :: "string \<Rightarrow> error + val" where
  "eval_name n =
     (if n = ''context'' then Inr VContext
      else if n = ''filters'' then Inr VFilters
      else if n = ''auto_escape'' then Inr (VFun ''auto_escape'')
      else Inl (NameError n))"

definition eval_attribute :: "host \<Rightarrow> val \<Rightarrow> string \<Rightarrow> error + val" where
  "eval_attribute h v a =
     (case v of
        VStr s \<Rightarrow> if a = ''join'' then Inr (VJoin s) else get_attribute h v a
      | _ \<Rightarrow> get_attribute h v a)"

text \<open>
  \<open>context[name]\<close> and \<open>filters[name]\<close> raise \<open>KeyError\<close> for a missing key; any other
  subscript is the host's.
\<close>

definition eval_subscript :: "host \<Rightarrow> render_context \<Rightarrow> val \<Rightarrow> val \<Rightarrow> error + val" where
  "eval_subscript h c v k =
     (case (v, k) of
        (VContext, VStr n) \<Rightarrow> (case c n of None \<Rightarrow> Inl (KeyError n) | Some x \<Rightarrow> Inr x)
      | (VFilters, VStr n) \<Rightarrow>
          (case filter_table h n of None \<Rightarrow> Inl (KeyError n) | Some x \<Rightarrow> Inr x)
      | _ \<Rightarrow> get_item h v k)"

text \<open>
  Python's integers are unbounded; \<open>%\<close> takes the sign of the divisor, as \<open>mod\<close> on
  \<open>int\<close> does. \<open>/\<close> depends on the Python version and is left to the host.
\<close>

definition eval_binop :: "host \<Rightarrow> binop \<Rightarrow> val \<Rightarrow> val \<Rightarrow> error + val" where
  "eval_binop h operator a b =
     (case (a, b) of
        (VInt x, VInt y) \<Rightarrow>
          (case operator of
             Add \<Rightarrow> Inr (VInt (x + y))
           | Sub \<Rightarrow> Inr (VInt (x - y))
           | Mult \<Rightarrow> Inr (VInt (x * y))
           | Mod \<Rightarrow> if y = 0 then Inl ZeroDivisionError else Inr (VInt (x mod y))
           | Div \<Rightarrow> binop_other h operator a b)
      | _ \<Rightarrow> binop_other h operator a b)"

fun join_strs :: "string \<Rightarrow> val list \<Rightarrow> error + string" where
  "join_strs sep [] = Inr []"
| "join_strs sep [VStr s] = Inr s"
| "join_strs sep (VStr s # v # vs) =
     bind_err (join_strs sep (v # vs)) (\<lambda>r. Inr (s @ sep @ r))"
| "join_strs sep (x # vs) = Inl TypeError"

definition call_value ::
  "host \<Rightarrow> val \<Rightarrow> val list \<Rightarrow> (string \<times> val) list \<Rightarrow> error + val" where
  "call_value h f avs kvs =
     (case f of
        VFun name \<Rightarrow> call_fun h name avs kvs
      | VJoin sep \<Rightarrow>
          (case (avs, kvs) of
             ([VList xs], []) \<Rightarrow> bind_err (join_strs sep xs) (\<lambda>s. Inr (VStr s))
           | _ \<Rightarrow> Inl TypeError)
      | _ \<Rightarrow> Inl TypeError)"

text \<open>
  Evaluation of an expression reads the context and never changes it. Operands are
  evaluated from left to right, the callee before its arguments.
\<close>

fun eval :: "host \<Rightarrow> render_context \<Rightarrow> expr \<Rightarrow> error + val"
  and eval_list :: "host \<Rightarrow> render_context \<Rightarrow> expr list \<Rightarrow> error + val list"
  and eval_kwargs ::
    "host \<Rightarrow> render_context \<Rightarrow> (string \<times> expr) list \<Rightarrow> error + (string \<times> val) list"
where
  "eval h c (Num n) = Inr (VInt n)"
| "eval h c (NumFloat s) = Inr (VFloat s)"
| "eval h c (Str s) = Inr (VStr s)"
| "eval h c (Name n) = eval_name n"
| "eval h c (List_expr es) = bind_err (eval_list h c es) (\<lambda>vs. Inr (VList vs))"
| "eval h c (Attribute e a) = bind_err (eval h c e) (\<lambda>v. eval_attribute h v a)"
| "eval h c (Subscript e i) =
     bind_err (eval h c e) (\<lambda>v. bind_err (eval h c i) (\<lambda>k. eval_subscript h c v k))"
| "eval h c (BinOp l operator r) =
     bind_err (eval h c l) (\<lambda>a. bind_err (eval h c r) (\<lambda>b. eval_binop h operator a b))"
| "eval h c (Compare l operator r) =
     bind_err (eval h c l) (\<lambda>a. bind_err (eval h c r) (\<lambda>b. compare_vals h operator a b))"
| "eval h c (Call f as kws) =
     bind_err (eval h c f) (\<lambda>fv.
       bind_err (eval_list h c as) (\<lambda>avs.
         bind_err (eval_kwargs h c kws) (\<lambda>kvs. call_value h fv avs kvs)))"
| "eval_list h c [] = Inr []"
| "eval_list h c (e # es) =
     bind_err (eval h c e) (\<lambda>v. bind_err (eval_list h c es) (\<lambda>vs. Inr (v # vs)))"
| "eval_kwargs h c [] = Inr []"
| "eval_kwargs h c (kw # kws) =
     bind_err (eval h c (snd kw)) (\<lambda>v.
       bind_err (eval_kwargs h c kws) (\<lambda>kvs. Inr ((fst kw, v) # kvs)))"

subsection \<open>Statements\<close>

text \<open>
  A render procedure is a generator. Running a body gives the fragments it yields, in
  order, the context as the body leaves it, and the exception that ended it, if any:
  the fragments yielded before an exception have reached the consumer.
\<close>

datatype outcome =
  Outcome (frags: "val list") (ctx_of: render_context) (err_of: "error option")

definition raise :: "render_context \<Rightarrow> error \<Rightarrow> outcome" where
  "raise c e = Outcome [] c (Some e)"

text \<open>One statement after another.\<close>

definition then_do :: "outcome \<Rightarrow> (render_context \<Rightarrow> outcome) \<Rightarrow> outcome" where
  "then_do o1 k =
     (case err_of o1 of
        Some e \<Rightarrow> o1
      | None \<Rightarrow>
          (let o2 = k (ctx_of o1)
           in Outcome (frags o1 @ frags o2) (ctx_of o2) (err_of o2)))"

text \<open>Python's truth value of an object.\<close>

definition truthy :: "val \<Rightarrow> bool" where
  "truthy v =
     (case v of
        VNone \<Rightarrow> False
      | VBool b \<Rightarrow> b
      | VInt n \<Rightarrow> n \<noteq> 0
      | VStr s \<Rightarrow> s \<noteq> []
      | VList xs \<Rightarrow> xs \<noteq> []
      | _ \<Rightarrow> True)"

text \<open>
  \<open>iter(v)\<close>, run to its end: the elements of a list, the characters of a string; the
  other values of the model are not iterable.
\<close>

definition iterate :: "val \<Rightarrow> error + val list" where
  "iterate v =
     (case v of
        VList xs \<Rightarrow> Inr xs
      | VStr s \<Rightarrow> Inr (map (\<lambda>ch. VStr [ch]) s)
      | _ \<Rightarrow> Inl TypeError)"

text \<open>
  Assignment to the target of a \<open>for\<close> statement. The only target the compiler
  generates is \<open>context[<name>]\<close> in \<open>Store\<close> context, which sets the key in the
  mapping the caller passed.
\<close>

definition assign_target :: "expr \<Rightarrow> val \<Rightarrow> render_context \<Rightarrow> error + render_context" where
  "assign_target target v c =
     (case target of
        Subscript (Name n) (Str k) \<Rightarrow>
          if n = ''context'' then Inr (c(k \<mapsto> v)) else Inl (NameError n)
      | _ \<Rightarrow> Inl TypeError)"

text \<open>
  The iterations of \<open>for target in <values>: body\<close>: each value is stored in the target,
  then the body runs.
\<close>

fun for_loop ::
  "(render_context \<Rightarrow> outcome) \<Rightarrow> expr \<Rightarrow> val list \<Rightarrow> render_context \<Rightarrow> outcome" where
  "for_loop body target [] c = Outcome [] c None"
| "for_loop body target (v # vs) c =
     (case assign_target target v c of
        Inl e \<Rightarrow> raise c e
      | Inr c' \<Rightarrow> then_do (body c') (for_loop body target vs))"

text \<open>
  Python runs the \<open>else\<close> suite of a \<open>for\<close> statement when the iterator is exhausted,
  that is, whenever the loop is not left by \<open>break\<close>; the generated code has no
  \<open>break\<close>.
\<close>

definition for_stmt ::
  "(render_context \<Rightarrow> outcome) \<Rightarrow> (render_context \<Rightarrow> outcome) \<Rightarrow> expr
     \<Rightarrow> error + val \<Rightarrow> render_context \<Rightarrow> outcome" where
  "for_stmt body orelse target it c =
     (case bind_err it iterate of
        Inl e \<Rightarrow> raise c e
      | Inr vs \<Rightarrow> then_do (for_loop body target vs c) orelse)"

subsection \<open>Classes\<close>

text \<open>
  A class body binds its functions in order, so a later \<open>def\<close> of a name replaces an
  earlier one.
\<close>

fun own_method :: "class_item list \<Rightarrow> string \<Rightarrow> funcdef option" where
  "own_method [] m = None"
| "own_method (CPass # items) m = own_method items m"
| "own_method (CFun f # items) m =
     (case own_method items m of
        Some g \<Rightarrow> Some g
      | None \<Rightarrow> if fname f = m then Some f else None)"

text \<open>
  Attribute lookup on an instance of class \<open>c\<close>, in the classes defined so far, latest
  first: the class itself, then its base, which was bound when the class was defined.
\<close>

fun find_method :: "klass list \<Rightarrow> string \<Rightarrow> string \<Rightarrow> funcdef option" where
  "find_method [] c m = None"
| "find_method (k # ks) c m =
     (if cname k = c then
        (case own_method (cbody k) m of
           Some f \<Rightarrow> Some f
         | None \<Rightarrow>
             (case bases k of
                [b] \<Rightarrow> if b = ''object'' then None else find_method ks b m
              | _ \<Rightarrow> None))
      else find_method ks c m)"

text \<open>
  Executing the module defines its classes in order; the name of a base must be bound
  at that point (\<open>object\<close> is a builtin).
\<close>

fun exec_module :: "klass list \<Rightarrow> klass list \<Rightarrow> error + klass list" where
  "exec_module defined [] = Inr defined"
| "exec_module defined (k # ks) =
     (case filter (\<lambda>b. b \<noteq> ''object'' \<and> b \<notin> cname ` set defined) (bases k) of
        [] \<Rightarrow> exec_module (k # defined) ks
      | b # bs \<Rightarrow> Inl (NameError b))"

record frame =
  host_of :: host
  classes :: "klass list"
  self_class :: string

text \<open>The method name of \<open>self.<name>(context)\<close>, the only call \<open>build_yield_from\<close> makes.\<close>

definition self_call :: "expr \<Rightarrow> string option" where
  "self_call e =
     (case e of
        Call (Attribute (Name s) m) [Name a] [] \<Rightarrow>
          if s = ''self'' \<and> a = ''context'' then Some m else None
      | _ \<Rightarrow> None)"

text \<open>
  The first argument bounds the depth of nested generator calls, as the interpreter's
  recursion limit does.
\<close>

function (sequential) exec_stmt :: "frame \<Rightarrow> nat \<Rightarrow> stmt \<Rightarrow> render_context \<Rightarrow> outcome"
  and exec_block :: "frame \<Rightarrow> nat \<Rightarrow> stmt list \<Rightarrow> render_context \<Rightarrow> outcome"
where
  "exec_stmt fr d Pass c = Outcome [] c None"
| "exec_stmt fr d (Yield e) c =
     (case eval (host_of fr) c e of
        Inl er \<Rightarrow> raise c er
      | Inr v \<Rightarrow> Outcome [v] c None)"
| "exec_stmt fr d (If_stmt test body orelse) c =
     (case eval (host_of fr) c test of
        Inl er \<Rightarrow> raise c er
      | Inr v \<Rightarrow> if truthy v then exec_block fr d body c else exec_block fr d orelse c)"
| "exec_stmt fr d (For_stmt target it body orelse) c =
     for_stmt (\<lambda>c'. exec_block fr d body c') (\<lambda>c'. exec_block fr d orelse c') target
       (eval (host_of fr) c it) c"
| "exec_stmt fr 0 (YieldFrom e) c = raise c RecursionError"
| "exec_stmt fr (Suc d) (YieldFrom e) c =
     (case self_call e of
        None \<Rightarrow> raise c TypeError
      | Some m \<Rightarrow>
          (case find_method (classes fr) (self_class fr) m of
             None \<Rightarrow> raise c (AttributeError m)
           | Some f \<Rightarrow> exec_block fr d (fbody f) c))"
| "exec_block fr d [] c = Outcome [] c None"
| "exec_block fr d (s # ss) c = then_do (exec_stmt fr d s c) (\<lambda>c'. exec_block fr d ss c')"
  by pat_completeness auto

termination
  by (relation "inv_image (less_than <*lex*> less_than)
        (case_sum (\<lambda>(fr, d, s, c). (d, size s)) (\<lambda>(fr, d, ss, c). (d, size_list size ss)))")
    auto

section \<open>ParserState (utils/parser.py)\<close>

text \<open>
  \<open>functions\<close> (here \<open>functions_d\<close>) is a dictionary from block names to function definitions, kept with its
  insertion order. \<open>module_body\<close> is a list of class objects; the class of the template
  being parsed is still changed by \<open>finalize\<close> after it was appended, so the list holds
  a reference to it (\<open>Own\<close>), whereas the classes of a parent are complete when they
  arrive. \<open>root_func\<close> refers to the function stored under its name.
\<close>

datatype class_ref = Finished klass | Own

record parser_state =
  level :: nat
  base_class :: string
  functions_d :: "(string \<times> funcdef) list"
  klass :: "klass option"
  module_body :: "class_ref list"
  root_func :: "string option"

definition ParserState :: "nat \<Rightarrow> parser_state" where
  "ParserState lv =
     \<lparr>level = lv, base_class = ''object'', functions_d = [], klass = None,
      module_body = [], root_func = None\<rparr>"

fun dict_set :: "string \<Rightarrow> 'v \<Rightarrow> (string \<times> 'v) list \<Rightarrow> (string \<times> 'v) list" where
  "dict_set k v [] = [(k, v)]"
| "dict_set k v (p # r) = (if fst p = k then (k, v) # r else p # dict_set k v r)"

definition dict_del :: "string \<Rightarrow> (string \<times> 'v) list \<Rightarrow> (string \<times> 'v) list" where
  "dict_del k d = filter (\<lambda>p. fst p \<noteq> k) d"

definition add_function :: "parser_state \<Rightarrow> string \<Rightarrow> funcdef \<Rightarrow> error + parser_state" where
  "add_function st name func =
     (if name \<in> fst ` set (functions_d st) then Inl (DuplicateBlockError name)
      else Inr (st\<lparr>functions_d := dict_set name func (functions_d st)\<rparr>))"

text \<open>\<open>append_to_block\<close> is only called with the default \<open>name='root'\<close>.\<close>

definition append_to_block :: "parser_state \<Rightarrow> stmt \<Rightarrow> error + parser_state" where
  "append_to_block st v =
     (case map_of (functions_d st) ''root'' of
        None \<Rightarrow> Inl (KeyError ''root'')
      | Some f \<Rightarrow>
          Inr (st\<lparr>functions_d :=
                 dict_set ''root'' (FunctionDef (fname f) (fbody f @ [v])) (functions_d st)\<rparr>))"

definition digit_chr :: "nat \<Rightarrow> char" where
  "digit_chr d = ''0123456789'' ! d"

function str_of_nat :: "nat \<Rightarrow> string" where
  "str_of_nat n =
     (if n < 10 then [digit_chr n] else str_of_nat (n div 10) @ [digit_chr (n mod 10)])"
  by auto

termination
  by (relation "measure id") auto

declare str_of_nat.simps [simp del]

text \<open>\<open>'Template%s' % (self.level or '')\<close>\<close>

definition class_name :: "parser_state \<Rightarrow> string" where
  "class_name st = ''Template'' @ (if level st = 0 then [] else str_of_nat (level st))"

definition finalize :: "parser_state \<Rightarrow> error + parser_state" where
  "finalize st =
     (case klass st of
        None \<Rightarrow> Inl (AttributeError ''bases'')
      | Some k0 \<Rightarrow>
          (let k1 = k0\<lparr>bases := [base_class st]\<rparr> in
           if base_class st \<noteq> ''object'' then
             (if ''root'' \<notin> fst ` set (functions_d st) then Inl (KeyError ''root'')
              else
                (let fs = dict_del ''root'' (functions_d st);
                     k2 = k1\<lparr>cbody := CPass # cbody k1\<rparr>
                 in Inr (st\<lparr>root_func := None, functions_d := fs,
                           klass := Some (k2\<lparr>cbody := cbody k2 @ map (\<lambda>p. CFun (snd p)) fs\<rparr>)\<rparr>)))
           else
             Inr (st\<lparr>klass :=
                    Some (k1\<lparr>cbody := cbody k1 @ map (\<lambda>p. CFun (snd p)) (functions_d st)\<rparr>)\<rparr>)))"

text \<open>\<open>build_class\<close>; the pair it returns is not used by its callers.\<close>

definition build_class :: "parser_state \<Rightarrow> error + parser_state" where
  "build_class st =
     (let root = build_function ''root'' [];
          k = \<lparr>cname = class_name st, bases = [], cbody = []\<rparr>
      in add_function (st\<lparr>klass := Some k, root_func := Some ''root''\<rparr>) ''root'' root)"

text \<open>The class objects a list of references stands for, once the state is final.\<close>

definition resolve :: "parser_state \<Rightarrow> class_ref list \<Rightarrow> klass list" where
  "resolve st refs =
     concat (map (\<lambda>r. case r of Finished k \<Rightarrow> [k]
                              | Own \<Rightarrow> (case klass st of None \<Rightarrow> [] | Some k \<Rightarrow> [k])) refs)"

section \<open>The structure parser (parser/structure.py)\<close>

text \<open>
  The structural lexer and the LR driver are not among the sources. A template is
  given as its derivation in the grammar of the structure parser: \<open>doc\<close> and \<open>inner\<close>
  are non-empty sequences of items, and an item is a \<open>CONTENT\<close> token or a \<open>var\<close>,
  \<open>if\<close>, \<open>for\<close>, \<open>block\<close>, \<open>extends\<close> or \<open>comment\<close>, each with the text of its
  \<open>CONTENT\<close> token. The optional second body is the one after \<open>ELSE\<close> (or \<open>EMPTY\<close> in a
  \<open>for\<close>, which has the same production function). The productions run in the order of
  the reductions of a bottom-up parse: the bodies of a tag from left to right, then the
  tag itself.
\<close>

datatype item =
    CONTENT string
  | Var string
  | If_tag string "item list" "item list option"
  | For_tag string "item list" "item list option"
  | Block_tag string "item list"
  | Extends_tag string
  | Comment string

text \<open>
  What the productions take from outside: the expression lexer \<open>lexers.fl.lex\<close>, and for
  \<open>extends\<close> the file system together with the structural lexer and parser driver, which
  turn a file name into the derivation of the file's text.
\<close>

record collaborators =
  fl_lex :: "string \<Rightarrow> error + token list"
  load :: "string \<Rightarrow> error + item list"

text \<open>\<open>parsers.fp.parse(lexers.fl.lex(s))\<close>\<close>

definition parse_expression :: "collaborators \<Rightarrow> string \<Rightarrow> error + expr" where
  "parse_expression cf s = bind_err (fl_lex cf s) fp_parse"

definition var_impl :: "collaborators \<Rightarrow> string \<Rightarrow> error + stmt" where
  "var_impl cf s =
     bind_err (parse_expression cf s)
       (\<lambda>content. Inr (build_yield (build_call (Name ''auto_escape'') [content] [])))"

definition if_impl :: "collaborators \<Rightarrow> string \<Rightarrow> stmt list \<Rightarrow> error + stmt" where
  "if_impl cf condition body =
     bind_err (parse_expression cf condition) (\<lambda>test. Inr (If_stmt test body []))"

definition if_else_impl ::
  "collaborators \<Rightarrow> string \<Rightarrow> stmt list \<Rightarrow> stmt list \<Rightarrow> error + stmt" where
  "if_else_impl cf condition body orelse =
     bind_err (parse_expression cf condition) (\<lambda>test. Inr (If_stmt test body orelse))"

text \<open>\<open>target, in_, var = ...\<close> and \<open>name, = ...\<close>: any other length is a \<open>ValueError\<close>.\<close>

fun unpack3 :: "string list \<Rightarrow> error + (string \<times> string \<times> string)" where
  "unpack3 [a, b, c] = Inr (a, b, c)"
| "unpack3 xs = Inl (UnpackError (length xs))"

fun unpack1 :: "string list \<Rightarrow> error + string" where
  "unpack1 [a] = Inr a"
| "unpack1 xs = Inl (UnpackError (length xs))"

definition for_else_impl ::
  "collaborators \<Rightarrow> string \<Rightarrow> stmt list \<Rightarrow> stmt list \<Rightarrow> error + stmt" where
  "for_else_impl cf a body orelse =
     bind_err (bind_err (split_tag_args_string a) unpack3)
       (\<lambda>(target, in_kw, var).
          if in_kw \<noteq> ''in'' then Inl InExpected
          else bind_err (parse_expression cf var)
                 (\<lambda>iterator.
                    Inr (For_stmt (Subscript (Name ''context'') (Str target))
                           iterator body orelse)))"

text \<open>\<open>for__impl\<close> is the same function with \<open>orelse=[]\<close>.\<close>

definition for_impl :: "collaborators \<Rightarrow> string \<Rightarrow> stmt list \<Rightarrow> error + stmt" where
  "for_impl cf a body = for_else_impl cf a body []"

definition block_impl ::
  "parser_state \<Rightarrow> string \<Rightarrow> stmt list \<Rightarrow> error + (parser_state \<times> stmt)" where
  "block_impl st a body =
     bind_err (bind_err (split_tag_args_string a) unpack1)
       (\<lambda>name.
          bind_err (add_function st name (build_function name body))
            (\<lambda>st'. Inr (st', build_yield_from name)))"

text \<open>
  \<open>extends__impl\<close>; \<open>super_parse\<close> is \<open>parsers.sp.parse\<close> on the parent's derivation
  with the fresh state.
\<close>

definition extends_impl ::
  "collaborators \<Rightarrow> (parser_state \<Rightarrow> item list \<Rightarrow> error + (parser_state \<times> class_ref list))
     \<Rightarrow> parser_state \<Rightarrow> string \<Rightarrow> error + (parser_state \<times> stmt)" where
  "extends_impl cf super_parse st a =
     bind_err (bind_err (split_tag_args_string a) unpack1)
       (\<lambda>filename.
          bind_err (load cf filename)
            (\<lambda>content.
               let super_level = level st + 1;
                   super_state = ParserState super_level
               in bind_err (super_parse super_state content)
                    (\<lambda>(sst, super_classes).
                       bind_err (finalize sst)
                         (\<lambda>sst'.
                            Inr (st\<lparr>module_body := map Finished (resolve sst' super_classes),
                                     base_class := ''Template'' @ str_of_nat super_level\<rparr>,
                                 Pass)))))"

text \<open>\<open>comment\<close>\<close>

definition comment_impl :: stmt where
  "comment_impl = build_yield (Str [])"

text \<open>
  \<open>inner__CONTENT\<close>, \<open>inner__parsed\<close> start the list; \<open>inner__inner_CONTENT\<close> and
  \<open>inner__inner_parsed\<close> append to it; \<open>inner__inner_comment\<close> leaves it as it is.
\<close>

definition inner_next :: "stmt list \<Rightarrow> item \<Rightarrow> stmt \<Rightarrow> stmt list" where
  "inner_next inner x p = (case x of Comment s \<Rightarrow> inner | _ \<Rightarrow> inner @ [p])"

text \<open>
  \<open>doc__CONTENT\<close> and \<open>doc__parsed\<close>: the first reduction of \<open>doc\<close> builds the class
  and returns \<open>state.module_body\<close>.
\<close>

definition doc_first :: "parser_state \<Rightarrow> stmt \<Rightarrow> error + parser_state" where
  "doc_first st p =
     bind_err (build_class st)
       (\<lambda>st1. bind_err (append_to_block st1 p)
                 (\<lambda>st2. Inr (st2\<lparr>module_body := module_body st2 @ [Own]\<rparr>)))"

text \<open>\<open>doc__doc_CONTENT\<close>, \<open>doc__doc_parsed\<close>, \<open>doc__doc_comment\<close>\<close>

definition doc_next :: "parser_state \<Rightarrow> item \<Rightarrow> stmt \<Rightarrow> error + parser_state" where
  "doc_next st x p = (case x of Comment s \<Rightarrow> Inr st | _ \<Rightarrow> append_to_block st p)"

text \<open>
  The parse of a derivation. The number bounds the depth of nested \<open>extends\<close>, as the
  interpreter's recursion limit does. \<open>parse_item\<close> gives the value of a \<open>CONTENT\<close>
  token as the statement that every production makes of it.
\<close>

function (sequential)
    parse_item ::
      "collaborators \<Rightarrow> nat \<Rightarrow> parser_state \<Rightarrow> item \<Rightarrow> error + (parser_state \<times> stmt)"
  and parse_inner ::
      "collaborators \<Rightarrow> nat \<Rightarrow> parser_state \<Rightarrow> item list \<Rightarrow> error + (parser_state \<times> stmt list)"
  and parse_inner_rest ::
      "collaborators \<Rightarrow> nat \<Rightarrow> parser_state \<Rightarrow> stmt list \<Rightarrow> item list
         \<Rightarrow> error + (parser_state \<times> stmt list)"
  and parse_doc ::
      "collaborators \<Rightarrow> nat \<Rightarrow> parser_state \<Rightarrow> item list
         \<Rightarrow> error + (parser_state \<times> class_ref list)"
  and parse_doc_rest ::
      "collaborators \<Rightarrow> nat \<Rightarrow> parser_state \<Rightarrow> class_ref list \<Rightarrow> item list
         \<Rightarrow> error + (parser_state \<times> class_ref list)"
where
  "parse_item cf n st (CONTENT s) = Inr (st, build_yield (Str s))"
| "parse_item cf n st (Var s) = bind_err (var_impl cf s) (\<lambda>p. Inr (st, p))"
| "parse_item cf n st (Comment s) = Inr (st, comment_impl)"
| "parse_item cf n st (If_tag a body None) =
     bind_err (parse_inner cf n st body)
       (\<lambda>(st1, b). bind_err (if_impl cf a b) (\<lambda>p. Inr (st1, p)))"
| "parse_item cf n st (If_tag a body (Some orelse)) =
     bind_err (parse_inner cf n st body)
       (\<lambda>(st1, b). bind_err (parse_inner cf n st1 orelse)
          (\<lambda>(st2, e). bind_err (if_else_impl cf a b e) (\<lambda>p. Inr (st2, p))))"
| "parse_item cf n st (For_tag a body None) =
     bind_err (parse_inner cf n st body)
       (\<lambda>(st1, b). bind_err (for_impl cf a b) (\<lambda>p. Inr (st1, p)))"
| "parse_item cf n st (For_tag a body (Some orelse)) =
     bind_err (parse_inner cf n st body)
       (\<lambda>(st1, b). bind_err (parse_inner cf n st1 orelse)
          (\<lambda>(st2, e). bind_err (for_else_impl cf a b e) (\<lambda>p. Inr (st2, p))))"
| "parse_item cf n st (Block_tag a body) =
     bind_err (parse_inner cf n st body) (\<lambda>(st1, b). block_impl st1 a b)"
| "parse_item cf 0 st (Extends_tag a) =
     extends_impl cf (\<lambda>sst d. Inl RecursionError) st a"
| "parse_item cf (Suc n) st (Extends_tag a) =
     extends_impl cf (\<lambda>sst d. parse_doc cf n sst d) st a"
| "parse_inner cf n st [] = Inl (UnexpectedToken ''$end'')"
| "parse_inner cf n st (x # xs) =
     bind_err (parse_item cf n st x) (\<lambda>(st1, p). parse_inner_rest cf n st1 [p] xs)"
| "parse_inner_rest cf n st inner [] = Inr (st, inner)"
| "parse_inner_rest cf n st inner (x # xs) =
     bind_err (parse_item cf n st x)
       (\<lambda>(st1, p). parse_inner_rest cf n st1 (inner_next inner x p) xs)"
| "parse_doc cf n st [] = Inl (UnexpectedToken ''$end'')"
| "parse_doc cf n st (x # xs) =
     bind_err (parse_item cf n st x)
       (\<lambda>(st1, p). bind_err (doc_first st1 p)
          (\<lambda>st2. parse_doc_rest cf n st2 (module_body st2) xs))"
| "parse_doc_rest cf n st doc [] = Inr (st, doc)"
| "parse_doc_rest cf n st doc (x # xs) =
     bind_err (parse_item cf n st x)
       (\<lambda>(st1, p). bind_err (doc_next st1 x p) (\<lambda>st2. parse_doc_rest cf n st2 doc xs))"
  by pat_completeness auto

termination
  by (relation "inv_image (less_than <*lex*> less_than)
        (case_sum
           (case_sum (\<lambda>(cf, n, st, x). (n, size x))
                     (\<lambda>(cf, n, st, xs). (n, size_list size xs)))
           (case_sum (\<lambda>(cf, n, st, inner, xs). (n, size_list size xs))
              (case_sum (\<lambda>(cf, n, st, xs). (n, size_list size xs))
                        (\<lambda>(cf, n, st, doc, xs). (n, size_list size xs)))))")
    auto

section \<open>Compiling and rendering a template\<close>

text \<open>
  Modelled from the spec: the entry point that compiles a template and the one that
  renders it are not among the sources. Compilation is taken to do for the template
  what \<open>extends__impl\<close> does for a parent (a fresh \<open>ParserState\<close>, the parse, \<open>finalize\<close>:
  \<open>compile_level\<close>), at level 0; the compiled unit is the list of classes of the module.
  Rendering (spec 4.7) executes the module, invokes the root procedure of the
  template's class with the given context and consumes the fragments.
\<close>

definition compile_level ::
  "collaborators \<Rightarrow> nat \<Rightarrow> nat \<Rightarrow> item list \<Rightarrow> error + klass list" where
  "compile_level cf depth lv d =
     bind_err (parse_doc cf depth (ParserState lv) d)
       (\<lambda>(st, doc). bind_err (finalize st) (\<lambda>st'. Inr (resolve st' doc)))"

definition compile_template :: "collaborators \<Rightarrow> nat \<Rightarrow> item list \<Rightarrow> error + klass list" where
  "compile_template cf depth d = compile_level cf depth 0 d"

definition render :: "host \<Rightarrow> nat \<Rightarrow> klass list \<Rightarrow> render_context \<Rightarrow> outcome" where
  "render h depth module c =
     (case exec_module [] module of
        Inl e \<Rightarrow> raise c e
      | Inr defined \<Rightarrow>
          if class_name (ParserState 0) \<notin> cname ` set defined
          then raise c (NameError (class_name (ParserState 0)))
          else
            (case find_method defined (class_name (ParserState 0)) ''root'' of
               None \<Rightarrow> raise c (AttributeError ''root'')
             | Some f \<Rightarrow>
                 exec_block \<lparr>host_of = h, classes = defined,
                             self_class = class_name (ParserState 0)\<rparr> depth (fbody f) c))"

text \<open>The rendered text, \<open>''.join(fragments)\<close>, when rendering raised nothing.\<close>

definition output_text :: "outcome \<Rightarrow> error + string" where
  "output_text out =
     (case err_of out of Some e \<Rightarrow> Inl e | None \<Rightarrow> join_strs [] (frags out))"

subsection \<open>The keys a compiled unit can write\<close>

text \<open>The key a \<open>for\<close> target stores to, when it is \<open>context[<key>]\<close>.\<close>

definition target_key :: "expr \<Rightarrow> string option" where
  "target_key target =
     (case target of
        Subscript (Name n) (Str k) \<Rightarrow> if n = ''context'' then Some k else None
      | _ \<Rightarrow> None)"

text \<open>The target keys of the \<open>for\<close> statements of a statement, of a body, of a module.\<close>

fun stmt_targets :: "stmt \<Rightarrow> string set"
  and block_targets :: "stmt list \<Rightarrow> string set"
where
  "stmt_targets (For_stmt target it body orelse) =
     set_option (target_key target) \<union> block_targets body \<union> block_targets orelse"
| "stmt_targets (If_stmt test body orelse) = block_targets body \<union> block_targets orelse"
| "stmt_targets (Yield e) = {}"
| "stmt_targets (YieldFrom e) = {}"
| "stmt_targets Pass = {}"
| "block_targets [] = {}"
| "block_targets (s # ss) = stmt_targets s \<union> block_targets ss"

fun class_targets :: "class_item list \<Rightarrow> string set" where
  "class_targets [] = {}"
| "class_targets (CPass # items) = class_targets items"
| "class_targets (CFun f # items) = block_targets (fbody f) \<union> class_targets items"

definition module_targets :: "klass list \<Rightarrow> string set" where
  "module_targets ks = (\<Union>k \<in> set ks. class_targets (cbody k))"

text \<open>
  What a \<open>{{ ... }}\<close> whose expression has the value \<open>v\<close> contributes when it is the
  whole template: the leading empty fragment, then \<open>auto_escape(v)\<close>.
\<close>

definition rendered_value :: "host \<Rightarrow> render_context \<Rightarrow> val \<Rightarrow> outcome" where
  "rendered_value h c v =
     (case call_fun h ''auto_escape'' [v] [] of
        Inl e \<Rightarrow> Outcome [VStr []] c (Some e)
      | Inr r \<Rightarrow> Outcome [VStr [], r] c None)"

subsection \<open>Sample collaborators\<close>

text \<open>
  Concrete collaborators on which the theorems below are instantiated: a lexer that
  knows the two arithmetic expressions of the specification and takes anything else for
  one identifier; one parent template, \<open>base\<close>, with the blocks \<open>body\<close> and \<open>foot\<close>; a
  host whose \<open>auto_escape\<close> returns strings as they are and integers in decimal, with
  the filters \<open>f\<close> (appends an exclamation mark, and the decimal of an integer
  argument) and \<open>g\<close> (puts its argument in brackets).
\<close>

definition sample_lexer :: "string \<Rightarrow> error + token list" where
  "sample_lexer s =
     (if s = ''1 + 2 * 3''
      then Inr [(NUMBER, ''1''), (PLUS, ''+''), (NUMBER, ''2''), (MUL, ''*''), (NUMBER, ''3'')]
      else if s = ''(1 + 2) * 3''
      then Inr [(LPAREN, ''(''), (NUMBER, ''1''), (PLUS, ''+''), (NUMBER, ''2''),
                (RPAREN, '')''), (MUL, ''*''), (NUMBER, ''3'')]
      else Inr [(NAME, s)])"

definition base_template :: "item list" where
  "base_template =
     [CONTENT ''<'', Block_tag ''body'' [CONTENT ''parent''], CONTENT ''|'',
      Block_tag ''foot'' [CONTENT ''end''], CONTENT ''>'']"

definition sample_files :: "string \<Rightarrow> error + item list" where
  "sample_files path = (if path = ''base'' then Inr base_template else Inl (IOError path))"



definition sample_collaborators :: collaborators where
  "sample_collaborators = \<lparr>fl_lex = sample_lexer, load = sample_files\<rparr>"

definition str_of_int :: "int \<Rightarrow> string" where
  "str_of_int i = (if i < 0 then ''-'' @ str_of_nat (nat (- i)) else str_of_nat (nat i))"

definition sample_call :: "string \<Rightarrow> val list \<Rightarrow> (string \<times> val) list \<Rightarrow> error + val" where
  "sample_call name avs kvs =
     (if name = ''auto_escape'' then
        (case avs of
           [VStr s] \<Rightarrow> Inr (VStr s)
         | [VInt i] \<Rightarrow> Inr (VStr (str_of_int i))
         | _ \<Rightarrow> Inl TypeError)
      else if name = ''f'' then
        (case avs of
           [VStr s] \<Rightarrow> Inr (VStr (s @ ''!''))
         | [VStr s, VInt i] \<Rightarrow> Inr (VStr (s @ ''!'' @ str_of_int i))
         | _ \<Rightarrow> Inl TypeError)
      else if name = ''g'' then
        (case avs of
           [VStr s] \<Rightarrow> Inr (VStr (''['' @ s @ '']''))
         | _ \<Rightarrow> Inl TypeError)
      else Inl (NameError name))"

definition sample_host :: host where
  "sample_host =
     \<lparr>filter_table = [''f'' \<mapsto> VFun ''f'', ''g'' \<mapsto> VFun ''g''],
      call_fun = sample_call,
      get_attribute = (\<lambda>v a. Inl (AttributeError a)),
      get_item = (\<lambda>v k. Inl TypeError),
      binop_other = (\<lambda>operator a b. Inl TypeError),
      compare_vals = (\<lambda>operator a b. Inl TypeError)\<rparr>"

subsection \<open>Templates whose tags are well formed\<close>

definition is_ok :: "error + 'a \<Rightarrow> bool" where
  "is_ok r = (case r of Inl e \<Rightarrow> False | Inr x \<Rightarrow> True)"

text \<open>The name a \<open>block\<close> tag defines: the single element its argument splits into.\<close>

definition block_name :: "string \<Rightarrow> string option" where
  "block_name a =
     (case bind_err (split_tag_args_string a) unpack1 of
        Inl e \<Rightarrow> None
      | Inr name \<Rightarrow> Some name)"

text \<open>
  A template of one inheritance level in which nothing but a block name can go wrong:
  it has no \<open>extends\<close> tag, every body of a tag has at least one item, every
  expression parses, the arguments of every \<open>for\<close> are \<open><target> in <expression>\<close>,
  and the argument of every \<open>block\<close> is a single name.
\<close>

fun tag_ok :: "collaborators \<Rightarrow> item \<Rightarrow> bool"
  and items_ok :: "collaborators \<Rightarrow> item list \<Rightarrow> bool"
where
  "tag_ok cf (CONTENT s) = True"
| "tag_ok cf (Var s) = is_ok (parse_expression cf s)"
| "tag_ok cf (Comment s) = True"
| "tag_ok cf (If_tag a body orelse) =
     (is_ok (parse_expression cf a) \<and> body \<noteq> [] \<and> items_ok cf body
      \<and> (case orelse of None \<Rightarrow> True | Some e \<Rightarrow> e \<noteq> [] \<and> items_ok cf e))"
| "tag_ok cf (For_tag a body orelse) =
     (is_ok (for_else_impl cf a [] []) \<and> body \<noteq> [] \<and> items_ok cf body
      \<and> (case orelse of None \<Rightarrow> True | Some e \<Rightarrow> e \<noteq> [] \<and> items_ok cf e))"
| "tag_ok cf (Block_tag a body) = (block_name a \<noteq> None \<and> body \<noteq> [] \<and> items_ok cf body)"
| "tag_ok cf (Extends_tag a) = False"
| "items_ok cf [] = True"
| "items_ok cf (x # xs) = (tag_ok cf x \<and> items_ok cf xs)"

text \<open>
  The names of the blocks of an item, in the order in which their \<open>block\<close> productions
  are reduced: the blocks inside a block before the block itself.
\<close>

fun item_names :: "item \<Rightarrow> string list"
  and items_names :: "item list \<Rightarrow> string list"
where
  "item_names (CONTENT s) = []"
| "item_names (Var s) = []"
| "item_names (Comment s) = []"
| "item_names (Extends_tag a) = []"
| "item_names (If_tag a body orelse) =
     items_names body @ (case orelse of None \<Rightarrow> [] | Some e \<Rightarrow> items_names e)"
| "item_names (For_tag a body orelse) =
     items_names body @ (case orelse of None \<Rightarrow> [] | Some e \<Rightarrow> items_names e)"
| "item_names (Block_tag a body) =
     items_names body @ (case block_name a of None \<Rightarrow> [] | Some name \<Rightarrow> [name])"
| "items_names [] = []"
| "items_names (x # xs) = item_names x @ items_names xs"

text \<open>
  The names in the order in which \<open>add_function\<close> receives them during the parse of a
  document: \<open>build_class\<close> registers \<open>root\<close> when the first item of the document is
  reduced, after the blocks inside that item.
\<close>

fun registered :: "item list \<Rightarrow> string list" where
  "registered [] = []"
| "registered (x # xs) = item_names x @ [''root''] @ items_names xs"

text \<open>The first name of a sequence that is already among the names before it.\<close>

fun first_dup :: "string list \<Rightarrow> string list \<Rightarrow> string option" where
  "first_dup seen [] = None"
| "first_dup seen (y # ys) = (if y \<in> set seen then Some y else first_dup (seen @ [y]) ys)"

definition block_keys :: "parser_state \<Rightarrow> string list" where
  "block_keys st = map fst (functions_d st)"

text \<open>
  What a production sequence that meets the names \<open>names\<close> does on a state: it fails
  with the first name that is already registered, or it registers all of them, in
  order, and leaves the level, the base class and the class of the state alone.
\<close>

definition registers :: "parser_state \<Rightarrow> string list \<Rightarrow> error + (parser_state \<times> 'a) \<Rightarrow> bool" where
  "registers st names r =
     (case first_dup (block_keys st) names of
        Some y \<Rightarrow> r = Inl (DuplicateBlockError y)
      | None \<Rightarrow>
          (\<exists>st' p. r = Inr (st', p) \<and> block_keys st' = block_keys st @ names
                   \<and> level st' = level st \<and> base_class st' = base_class st
                   \<and> klass st' = klass st))"

subsection \<open>The translation of a well-formed template, without the state\<close>









subsection \<open>A child template\<close>




text \<open>
  The template \<open>{% for x in items %}a{% endfor %}\<close> and the module it compiles to.
\<close>

definition loop_template :: "item list" where
  "loop_template = [For_tag ''x in items'' [CONTENT ''a''] None]"

definition loop_module :: "klass list" where
  "loop_module =
     [\<lparr>cname = ''Template'', bases = [''object''],
       cbody = [CFun (FunctionDef ''root''
                  [Yield (Str []),
                   For_stmt (Subscript (Name ''context'') (Str ''x''))
                     (Subscript (Name ''context'') (Str ''items''))
                     [Yield (Str ''a'')] []])]\<rparr>]"

subsection \<open>Arithmetic expressions and the precedence of the specification\<close>

text \<open>
  Modelled from the spec: section 4.2 orders the arithmetic operators, additive (\<open>+ -\<close>)
  below multiplicative (\<open>* / %\<close>), both left-associative, with a parenthesised
  expression as a primary. On a chain \<open>x0 o1 x1 ... on xn\<close> of operands and operators
  this reads: the chain is cut at its additive operators, every piece is the product of
  its operands taken from the left, and the pieces are added (or subtracted) from the
  left. \<open>sum_of_products\<close> is that reading, written from the words of the specification
  and not from the parser; the operands are given as their trees.
\<close>

definition multiplicative :: "binop \<Rightarrow> bool" where
  "multiplicative b = (b = Mult \<or> b = Div \<or> b = Mod)"

definition additive :: "binop \<Rightarrow> bool" where
  "additive b = (b = Add \<or> b = Sub)"

definition product_step :: "binop \<times> expr \<Rightarrow> bool" where
  "product_step s = multiplicative (fst s)"

text \<open>The operators of one piece, applied from the left.\<close>

fun product_of :: "expr \<Rightarrow> (binop \<times> expr) list \<Rightarrow> expr" where
  "product_of p [] = p"
| "product_of p (s # r) = product_of (BinOp p (fst s) (snd s)) r"

text \<open>
  The pieces after the first, added from the left: the operator at the head is the
  additive one in front of a piece, and the piece reaches to the next additive operator.
\<close>

function sums :: "expr \<Rightarrow> (binop \<times> expr) list \<Rightarrow> expr" where
  "sums acc [] = acc"
| "sums acc (s # r) =
     sums (BinOp acc (fst s) (product_of (snd s) (takeWhile product_step r)))
       (dropWhile product_step r)"
  by pat_completeness auto

termination
  by (relation "measure (\<lambda>p. length (snd p))") (auto simp: length_dropWhile_le less_Suc_eq_le)

definition sum_of_products :: "expr \<Rightarrow> (binop \<times> expr) list \<Rightarrow> expr" where
  "sum_of_products x steps =
     sums (product_of x (takeWhile product_step steps)) (dropWhile product_step steps)"

text \<open>
  The token sequences of arithmetic expressions. An operand is one literal token, or an
  opening parenthesis, a first operand, a chain of operator tokens each followed by its
  operand, and a closing parenthesis. The tokens carry their text, which the parser
  reads only for literals.
\<close>

datatype arith = Atom token | Group token arith "(token \<times> arith) list" token

fun toks_of :: "arith \<Rightarrow> token list"
  and chain_toks :: "(token \<times> arith) list \<Rightarrow> token list" where
  "toks_of (Atom a) = [a]"
| "toks_of (Group l x ops r) = l # toks_of x @ chain_toks ops @ [r]"
| "chain_toks [] = []"
| "chain_toks (s # ops) = fst s # toks_of (snd s) @ chain_toks ops"

text \<open>The operator of a token, by \<open>binop_mapping\<close> of parser.py.\<close>

definition binop_of :: "token \<Rightarrow> binop" where
  "binop_of t = (case binop_mapping (fst t) of None \<Rightarrow> Add | Some b \<Rightarrow> b)"

text \<open>
  A well-formed operand: its literals are tokens that \<open>parse_literal\<close> accepts, its
  operator tokens are the five arithmetic ones, and its parentheses are \<open>LPAREN\<close> and
  \<open>RPAREN\<close> tokens.
\<close>

fun well_formed :: "arith \<Rightarrow> bool"
  and chain_ok :: "(token \<times> arith) list \<Rightarrow> bool" where
  "well_formed (Atom a) = is_ok (parse_literal [a])"
| "well_formed (Group l x ops r) =
     (fst l = LPAREN \<and> well_formed x \<and> chain_ok ops \<and> fst r = RPAREN)"
| "chain_ok [] = True"
| "chain_ok (s # ops) =
     (binop_mapping (fst (fst s)) \<noteq> None \<and> well_formed (snd s) \<and> chain_ok ops)"

text \<open>
  The tree the specification gives an operand: a literal is what \<open>parse_literal\<close> makes
  of its token, a parenthesised chain is the sum of products of its operands.
\<close>

fun tree_of :: "arith \<Rightarrow> expr"
  and chain_of :: "(token \<times> arith) list \<Rightarrow> (binop \<times> expr) list" where
  "tree_of (Atom a) = (case parse_literal [a] of Inl e \<Rightarrow> Num 0 | Inr p \<Rightarrow> fst p)"
| "tree_of (Group l x ops r) = sum_of_products (tree_of x) (chain_of ops)"
| "chain_of [] = []"
| "chain_of (s # ops) = (binop_of (fst s), tree_of (snd s)) # chain_of ops"

text \<open>
  What can follow a chain: the end of the tokens, or a token that does not continue an
  expression. The chain that is left when a pending additive rule has taken the
  multiplicative steps in front.
\<close>

definition stops :: "token list \<Rightarrow> bool" where
  "stops s = (case s of [] \<Rightarrow> True | t # r \<Rightarrow> \<not> continues (fst t))"

definition drop_products :: "(token \<times> arith) list \<Rightarrow> (token \<times> arith) list" where
  "drop_products ops = dropWhile (\<lambda>s. multiplicative (binop_of (fst s))) ops"

text \<open>
  The parser on an operand, with enough budget: it consumes the tokens of the operand
  and goes on with the operand's tree on the stack.
\<close>

abbreviation operand_parses :: "arith \<Rightarrow> bool" where
  "operand_parses y \<equiv>
     (\<forall>n pending rest. 2 * length (toks_of y) \<le> n \<longrightarrow>
        parse_expr (Suc n) pending (toks_of y @ rest) = parse_rest n pending (tree_of y) rest)"

section \<open>Properties of the tag argument splitter\<close>

lemmas chr_defs = dquote_def squote_chr_def bslash_def lparen_def rparen_def space_def

lemmas split_defs = split_tag_args_string_def split_init_def split_step_def split_finish_def
  append_chr_def strip_quotes_def chr_defs

text \<open>
  Claim C2, as the code has it: a backslash takes the following character out of the
  splitter's hands. Whatever that character is (a space, a quote, a parenthesis,
  another backslash), it is appended to the current argument and changes neither the
  quoting state nor the nesting depth nor the list of arguments. The backslash is not
  dropped: it is appended in front of the character.
\<close>

theorem split_backslash_kept:
  "\<not> escaped st \<Longrightarrow>
   split_loop s st (bslash # c # rest) = split_loop s (st\<lparr>current := current st @ [bslash, c]\<rparr>) rest"
proof -
  assume h: "\<not> escaped st"
  then have e: "st\<lparr>escaped := False, current := current st @ [bslash, c]\<rparr>
                 = st\<lparr>current := current st @ [bslash, c]\<rparr>"
    by (cases st) simp
  from h have "split_step s st bslash = Inr (st\<lparr>escaped := True\<rparr>)"
    by (simp add: split_step_def chr_defs)
  moreover have "split_step s (st\<lparr>escaped := True\<rparr>) c
                   = Inr (st\<lparr>current := current st @ [bslash, c]\<rparr>)"
    using e by (simp add: split_step_def)
  ultimately show ?thesis by simp
qed

theorem split_backslash_kept_witness:
  "\<not> escaped split_init \<and>
   split_loop ''a'' split_init (bslash # space # ''b'')
     = split_loop ''a'' (split_init\<lparr>current := current split_init @ [bslash, space]\<rparr>) ''b'' \<and>
   split_tag_args_string [CHR ''a'', bslash, space, CHR ''b''] = Inr [[CHR ''a'', bslash, space, CHR ''b'']]"
  using split_backslash_kept [of split_init "''a''" space "''b''"]
  by (simp add: split_defs)

text \<open>
  Claim C2 as stated fails: the argument string \<open>a\ b\<close> is not split into the single
  argument \<open>a b\<close>; the backslash stays in the argument.
\<close>

theorem split_backslash_dropped_counterexample:
  "split_tag_args_string [CHR ''a'', bslash, space, CHR ''b''] \<noteq> Inr [''a b'']"
  by (simp add: split_defs)



section \<open>Properties of compiled templates\<close>

lemmas compile_defs = compile_template_def compile_level_def ParserState_def doc_first_def doc_next_def
  build_class_def add_function_def append_to_block_def build_function_def build_yield_def
  build_call_def build_yield_from_def class_name_def finalize_def resolve_def dict_del_def
  var_impl_def parse_expression_def comment_impl_def inner_next_def

lemmas render_defs = render_def raise_def then_do_def output_text_def

lemmas parser_defs = fp_parse_def parse_expr_body_def parse_rest_body_def parse_literal_def
  number_NUMBER_def digit_val_def continues_def shifts_def prec_def precedence_def
  binop_mapping_def cmpop_mapping_def rest_binop_def rest_cmpop_def rest_filter_def
  parse_filter_body_def expect_then_def expr_binop_def expr_binop_paren_def
  expr_filter_def filter_pipe_lookup_name_def filter_colon_arg_def lookup_name_NAME_def
  name_NAME_def get_filter_func_def get_lookup_name_def unexpected_def

lemmas eval_defs = eval_binop_def eval_name_def call_value_def eval_subscript_def
  eval_attribute_def

lemmas sample_defs = sample_collaborators_def sample_lexer_def sample_files_def base_template_def
  sample_host_def sample_call_def str_of_int_def

lemma parse_name: "fp_parse [(NAME, x)] = Inr (name_NAME x)"
  by (simp add: parser_defs numeral_eq_Suc)

lemma parse_mul_first:
  "fp_parse [(NUMBER, ''1''), (PLUS, p), (NUMBER, ''2''), (MUL, m), (NUMBER, ''3'')]
     = Inr (BinOp (Num 1) Add (BinOp (Num 2) Mult (Num 3)))"
  by (simp add: parser_defs numeral_eq_Suc)

lemma parse_paren_first:
  "fp_parse [(LPAREN, l), (NUMBER, ''1''), (PLUS, p), (NUMBER, ''2''), (RPAREN, r),
             (MUL, m), (NUMBER, ''3'')]
     = Inr (BinOp (BinOp (Num 1) Add (Num 2)) Mult (Num 3))"
  by (simp add: parser_defs numeral_eq_Suc)



lemma split_for_args: "split_tag_args_string ''i in items'' = Inr [''i'', ''in'', ''items'']"
  by (simp add: split_defs)

text \<open>
  Claim C9: a template without delimiters is a single \<open>CONTENT\<close> token (spec 4.1). For
  every such text, every context, every host and every depth bound, it compiles, and
  rendering yields the empty leading fragment and the text, raises nothing, leaves the
  context as it was, and the joined output is the text unchanged.
\<close>

theorem render_plain_text:
  "\<exists>m. compile_template cf n [CONTENT s] = Inr m
       \<and> frags (render h d m c) = [VStr [], VStr s]
       \<and> err_of (render h d m c) = None
       \<and> ctx_of (render h d m c) = c
       \<and> output_text (render h d m c) = Inr s"
  by (simp add: compile_defs render_defs)

theorem render_plain_text_witness:
  "\<exists>m. compile_template sample_collaborators 0 [CONTENT ''hello''] = Inr m
       \<and> frags (render sample_host 0 m Map.empty) = [VStr [], VStr ''hello'']
       \<and> err_of (render sample_host 0 m Map.empty) = None
       \<and> ctx_of (render sample_host 0 m Map.empty) = Map.empty
       \<and> output_text (render sample_host 0 m Map.empty) = Inr ''hello''"
  by (rule render_plain_text)

lemma binop_cases:
  "binop_mapping t = Some b \<Longrightarrow>
     (t = PLUS \<and> b = Add) \<or> (t = MINUS \<and> b = Sub) \<or> (t = MUL \<and> b = Mult)
     \<or> (t = DIV \<and> b = Div) \<or> (t = MOD \<and> b = Mod)"
  by (auto simp: binop_mapping_def split: if_splits)

lemma shifts_none: "shifts None t"
  by (simp add: shifts_def)

lemma shifts_product:
  "binop_mapping m = Some bm \<Longrightarrow> multiplicative bm \<Longrightarrow> binop_mapping t = Some bt
     \<Longrightarrow> \<not> shifts (Some m) t"
  by (auto dest!: binop_cases simp: shifts_def prec_def precedence_def multiplicative_def)

lemma shifts_sum:
  "binop_mapping a = Some ba \<Longrightarrow> \<not> multiplicative ba \<Longrightarrow> binop_mapping t = Some bt
     \<Longrightarrow> shifts (Some a) t = multiplicative bt"
  by (auto dest!: binop_cases simp: shifts_def prec_def precedence_def multiplicative_def)

lemma continues_binop: "binop_mapping t = Some b \<Longrightarrow> continues t"
  by (simp add: continues_def)

lemma parse_rest_stop:
  "stops s \<Longrightarrow> parse_rest (Suc n) pending l s = Inr (l, s)"
  by (cases s) (simp_all add: stops_def parse_rest_body_def)

lemma parse_rest_reduce:
  "\<not> shifts pending (fst t) \<Longrightarrow> parse_rest (Suc n) pending l (t # r) = Inr (l, t # r)"
  by (simp add: parse_rest_body_def)

lemma parse_rest_shift:
  "binop_mapping (fst t) = Some b \<Longrightarrow> shifts pending (fst t) \<Longrightarrow>
     parse_rest (Suc n) pending l (t # r)
       = (case parse_expr n (Some (fst t)) r of
            Inl e \<Rightarrow> Inl e
          | Inr p \<Rightarrow> parse_rest n pending (BinOp l b (fst p)) (snd p))"
  by (simp add: parse_rest_body_def continues_binop rest_binop_def expr_binop_def
        split: sum.splits prod.splits)

lemma parse_atom:
  "is_ok (parse_literal [a]) \<Longrightarrow>
     parse_expr (Suc n) pending (a # rest) = parse_rest n pending (tree_of (Atom a)) rest"
  by (cases a)
     (auto simp: is_ok_def parse_expr_body_def parse_literal_def split: sum.splits if_splits)


lemma stops_rparen: "fst r = RPAREN \<Longrightarrow> stops (r # rest)"
  by (simp add: stops_def continues_def binop_mapping_def cmpop_mapping_def)

lemma chain_pending_product:
  assumes "stops s" and "chain_ok ops" and "binop_mapping m = Some bm" and "multiplicative bm"
  shows "parse_rest (Suc n) (Some m) l (chain_toks ops @ s) = Inr (l, chain_toks ops @ s)"
proof (cases ops)
  case Nil
  with assms(1) show ?thesis by (simp add: parse_rest_stop del: parse_rest.simps)
next
  case (Cons p r)
  with assms(2) obtain b where "binop_mapping (fst (fst p)) = Some b" by auto
  from shifts_product [OF assms(3,4) this] Cons show ?thesis
    by (simp add: parse_rest_reduce del: parse_rest.simps)
qed

lemma length_drop_products: "length (chain_toks (drop_products ops)) \<le> length (chain_toks ops)"
  by (induction ops) (simp_all add: drop_products_def)

lemma chain_ok_drop_products: "chain_ok ops \<Longrightarrow> chain_ok (drop_products ops)"
  by (induction ops) (simp_all add: drop_products_def)

lemma set_drop_products: "p \<in> set (drop_products ops) \<Longrightarrow> p \<in> set ops"
  unfolding drop_products_def by (rule set_dropWhileD)

lemma chain_of_drop_products: "chain_of (drop_products ops) = dropWhile product_step (chain_of ops)"
  by (induction ops) (simp_all add: drop_products_def product_step_def)

lemma hd_drop_products:
  "drop_products ops = [] \<or> \<not> multiplicative (binop_of (fst (hd (drop_products ops))))"
  unfolding drop_products_def
  using hd_dropWhile [of "\<lambda>s. multiplicative (binop_of (fst s))" ops] by blast

lemma product_step_pair: "product_step (b, e) = multiplicative b"
  by (simp add: product_step_def)

lemma binop_of_eq: "binop_mapping (fst t) = Some b \<Longrightarrow> binop_of t = b"
  by (simp add: binop_of_def)

lemma chain_pending_sum:
  assumes s: "stops s" and a: "binop_mapping a = Some ba" "\<not> multiplicative ba"
  shows "chain_ok ops \<Longrightarrow> (\<And>p. p \<in> set ops \<Longrightarrow> operand_parses (snd p))
         \<Longrightarrow> 2 * length (chain_toks ops) + 1 \<le> n
         \<Longrightarrow> parse_rest n (Some a) l (chain_toks ops @ s)
               = Inr (product_of l (takeWhile product_step (chain_of ops)),
                      chain_toks (drop_products ops) @ s)"
proof (induction ops arbitrary: l n)
  case Nil
  then obtain k where "n = Suc k" by (cases n) auto
  with s show ?case by (simp add: parse_rest_stop drop_products_def del: parse_rest.simps)
next
  case (Cons p r)
  from Cons.prems(1) obtain b where b: "binop_mapping (fst (fst p)) = Some b" by auto
  have bo: "binop_of (fst p) = b" by (rule binop_of_eq [OF b])
  from Cons.prems(3) obtain n1 where n: "n = Suc n1" by (cases n) auto
  show ?case
  proof (cases "multiplicative b")
    case False
    with shifts_sum [OF a b] have "\<not> shifts (Some a) (fst (fst p))" by simp
    then show ?thesis using n False bo
      by (simp add: parse_rest_reduce drop_products_def product_step_pair del: parse_rest.simps)
  next
    case True
    with shifts_sum [OF a b] have sh: "shifts (Some a) (fst (fst p))" by simp
    from Cons.prems(3) n obtain n2 where n1: "n1 = Suc n2" by (cases n1) auto
    from Cons.prems(3) n n1 obtain n3 where n2: "n2 = Suc n3" by (cases n2) auto
    have len: "2 * length (toks_of (snd p)) \<le> n2" using Cons.prems(3) n n1 by simp
    from Cons.prems(2) [of p] have "operand_parses (snd p)" by simp
    with len have e: "parse_expr n1 (Some (fst (fst p))) (toks_of (snd p) @ chain_toks r @ s)
        = parse_rest n2 (Some (fst (fst p))) (tree_of (snd p)) (chain_toks r @ s)"
      unfolding n1 by blast
    have ok: "chain_ok r" using Cons.prems(1) by simp
    have e2: "parse_rest n2 (Some (fst (fst p))) (tree_of (snd p)) (chain_toks r @ s)
        = Inr (tree_of (snd p), chain_toks r @ s)"
      unfolding n2 by (rule chain_pending_product [OF s ok b True])
    have ih: "parse_rest n1 (Some a) (BinOp l b (tree_of (snd p))) (chain_toks r @ s)
        = Inr (product_of (BinOp l b (tree_of (snd p))) (takeWhile product_step (chain_of r)),
               chain_toks (drop_products r) @ s)"
      by (rule Cons.IH [OF ok]) (use Cons.prems(2,3) n in auto)
    have "parse_rest n (Some a) l (fst p # toks_of (snd p) @ chain_toks r @ s)
        = parse_rest n1 (Some a) (BinOp l b (tree_of (snd p))) (chain_toks r @ s)"
      unfolding n by (simp add: parse_rest_shift [OF b sh] e e2 del: parse_rest.simps)
    with ih show ?thesis using True bo
      by (simp add: drop_products_def product_step_pair)
  qed
qed

lemma chain_sums:
  assumes s: "stops s"
  shows "length ops \<le> k \<Longrightarrow> chain_ok ops \<Longrightarrow> (\<And>p. p \<in> set ops \<Longrightarrow> operand_parses (snd p))
         \<Longrightarrow> 2 * length (chain_toks ops) + 1 \<le> n
         \<Longrightarrow> ops = [] \<or> \<not> multiplicative (binop_of (fst (hd ops)))
         \<Longrightarrow> parse_rest n None l (chain_toks ops @ s) = Inr (sums l (chain_of ops), s)"
proof (induction k arbitrary: ops l n)
  case 0
  then obtain j where "n = Suc j" by (cases n) auto
  with 0 s show ?case by (simp add: parse_rest_stop del: parse_rest.simps)
next
  case (Suc k)
  show ?case
  proof (cases ops)
    case Nil
    from Suc.prems(4) obtain j where "n = Suc j" by (cases n) auto
    with Nil s show ?thesis by (simp add: parse_rest_stop del: parse_rest.simps)
  next
    case (Cons p r)
    from Suc.prems(2) Cons obtain b where b: "binop_mapping (fst (fst p)) = Some b" by auto
    have bo: "binop_of (fst p) = b" by (rule binop_of_eq [OF b])
    from Suc.prems(5) Cons bo have nm: "\<not> multiplicative b" by simp
    from Suc.prems(4) obtain n1 where n: "n = Suc n1" by (cases n) auto
    from Suc.prems(4) n Cons obtain n2 where n1: "n1 = Suc n2" by (cases n1) auto
    have len: "2 * length (toks_of (snd p)) \<le> n2" using Suc.prems(4) n n1 Cons by simp
    from Suc.prems(3) [of p] Cons have "operand_parses (snd p)" by simp
    with len have e: "parse_expr n1 (Some (fst (fst p))) (toks_of (snd p) @ chain_toks r @ s)
        = parse_rest n2 (Some (fst (fst p))) (tree_of (snd p)) (chain_toks r @ s)"
      unfolding n1 by blast
    have ok: "chain_ok r" using Suc.prems(2) Cons by simp
    have e2: "parse_rest n2 (Some (fst (fst p))) (tree_of (snd p)) (chain_toks r @ s)
        = Inr (product_of (tree_of (snd p)) (takeWhile product_step (chain_of r)),
               chain_toks (drop_products r) @ s)"
      by (rule chain_pending_sum [OF s b nm ok]) (use Suc.prems(3,4) n n1 Cons in auto)
    have l1: "length (drop_products r) \<le> k"
      using Suc.prems(1) Cons length_dropWhile_le [of "\<lambda>s. multiplicative (binop_of (fst s))" r]
      by (simp add: drop_products_def)
    have ih: "parse_rest n1 None
          (BinOp l b (product_of (tree_of (snd p)) (takeWhile product_step (chain_of r))))
          (chain_toks (drop_products r) @ s)
        = Inr (sums (BinOp l b (product_of (tree_of (snd p)) (takeWhile product_step (chain_of r))))
                 (chain_of (drop_products r)), s)"
    proof (rule Suc.IH [OF l1 chain_ok_drop_products [OF ok]])
      fix q assume "q \<in> set (drop_products r)"
      then have "q \<in> set ops" using Cons set_drop_products by auto
      then show "operand_parses (snd q)" by (rule Suc.prems(3))
    next
      show "2 * length (chain_toks (drop_products r)) + 1 \<le> n1"
        using length_drop_products [of r] Suc.prems(4) n Cons by simp
    next
      show "drop_products r = [] \<or> \<not> multiplicative (binop_of (fst (hd (drop_products r))))"
        by (rule hd_drop_products)
    qed
    have "parse_rest n None l (fst p # toks_of (snd p) @ chain_toks r @ s)
        = parse_rest n1 None
            (BinOp l b (product_of (tree_of (snd p)) (takeWhile product_step (chain_of r))))
            (chain_toks (drop_products r) @ s)"
      unfolding n by (simp add: parse_rest_shift [OF b shifts_none] e e2 del: parse_rest.simps)
    with ih show ?thesis using Cons bo by (simp add: chain_of_drop_products)
  qed
qed

lemma chain_sum_of_products:
  assumes s: "stops s"
  shows "chain_ok ops \<Longrightarrow> (\<And>p. p \<in> set ops \<Longrightarrow> operand_parses (snd p))
         \<Longrightarrow> 2 * length (chain_toks ops) + 1 \<le> n
         \<Longrightarrow> parse_rest n None l (chain_toks ops @ s)
               = Inr (sum_of_products l (chain_of ops), s)"
proof (induction ops arbitrary: l n)
  case Nil
  then obtain j where "n = Suc j" by (cases n) auto
  with s show ?case by (simp add: parse_rest_stop sum_of_products_def del: parse_rest.simps)
next
  case (Cons p r)
  from Cons.prems(1) obtain b where b: "binop_mapping (fst (fst p)) = Some b" by auto
  have bo: "binop_of (fst p) = b" by (rule binop_of_eq [OF b])
  show ?case
  proof (cases "multiplicative b")
    case False
    have "parse_rest n None l (chain_toks (p # r) @ s) = Inr (sums l (chain_of (p # r)), s)"
      by (rule chain_sums [OF s order_refl Cons.prems(1) Cons.prems(2) Cons.prems(3)])
         (use False bo in auto)
    then show ?thesis using False bo by (simp add: sum_of_products_def product_step_pair)
  next
    case True
    from Cons.prems(3) obtain n1 where n: "n = Suc n1" by (cases n) auto
    from Cons.prems(3) n obtain n2 where n1: "n1 = Suc n2" by (cases n1) auto
    from Cons.prems(3) n n1 obtain n3 where n2: "n2 = Suc n3" by (cases n2) auto
    have len: "2 * length (toks_of (snd p)) \<le> n2" using Cons.prems(3) n n1 by simp
    from Cons.prems(2) [of p] have "operand_parses (snd p)" by simp
    with len have e: "parse_expr n1 (Some (fst (fst p))) (toks_of (snd p) @ chain_toks r @ s)
        = parse_rest n2 (Some (fst (fst p))) (tree_of (snd p)) (chain_toks r @ s)"
      unfolding n1 by blast
    have ok: "chain_ok r" using Cons.prems(1) by simp
    have e2: "parse_rest n2 (Some (fst (fst p))) (tree_of (snd p)) (chain_toks r @ s)
        = Inr (tree_of (snd p), chain_toks r @ s)"
      unfolding n2 by (rule chain_pending_product [OF s ok b True])
    have ih: "parse_rest n1 None (BinOp l b (tree_of (snd p))) (chain_toks r @ s)
        = Inr (sum_of_products (BinOp l b (tree_of (snd p))) (chain_of r), s)"
      by (rule Cons.IH [OF ok]) (use Cons.prems(2,3) n in auto)
    have "parse_rest n None l (fst p # toks_of (snd p) @ chain_toks r @ s)
        = parse_rest n1 None (BinOp l b (tree_of (snd p))) (chain_toks r @ s)"
      unfolding n by (simp add: parse_rest_shift [OF b shifts_none] e e2 del: parse_rest.simps)
    with ih show ?thesis using True bo by (simp add: sum_of_products_def product_step_pair)
  qed
qed

lemma operands_parse:
  "well_formed y \<Longrightarrow> operand_parses y"
  "chain_ok ops \<Longrightarrow> (\<forall>p \<in> set ops. operand_parses (snd p))"
proof (induction y and ops rule: well_formed_chain_ok.induct)
  case (1 a)
  then show ?case by (simp add: parse_atom del: parse_expr.simps tree_of.simps)
next
  case (2 l x ops r)
  from "2.prems" have wf: "fst l = LPAREN" "well_formed x" "chain_ok ops" "fst r = RPAREN"
    by simp_all
  from "2.IH"(1) [OF wf(2)] have x: "operand_parses x" .
  from "2.IH"(2) [OF wf(3)] have ops: "\<And>p. p \<in> set ops \<Longrightarrow> operand_parses (snd p)" by blast
  show ?case
  proof (intro allI impI)
    fix n pending rest
    assume len: "2 * length (toks_of (Group l x ops r)) \<le> n"
    then obtain n1 where n: "n = Suc n1" by (cases n) auto
    from len n have lx: "2 * length (toks_of x) \<le> n1" by simp
    with x have e: "parse_expr n None (toks_of x @ chain_toks ops @ r # rest)
        = parse_rest n1 None (tree_of x) (chain_toks ops @ r # rest)"
      unfolding n by blast
    have e2: "parse_rest n1 None (tree_of x) (chain_toks ops @ r # rest)
        = Inr (sum_of_products (tree_of x) (chain_of ops), r # rest)"
      by (rule chain_sum_of_products [OF stops_rparen [OF wf(4)] wf(3) ops])
         (use len n in auto)
    show "parse_expr (Suc n) pending (toks_of (Group l x ops r) @ rest)
        = parse_rest n pending (tree_of (Group l x ops r)) rest"
      using wf(1,4) by (simp add: parse_expr_body_def e e2 expect_then_def expr_binop_paren_def)
  qed
next
  case 3
  then show ?case by simp
next
  case (4 s ops)
  then show ?case by simp
qed

lemma parse_chain:
  assumes "well_formed x" and "chain_ok ops"
  shows "fp_parse (toks_of x @ chain_toks ops) = Inr (sum_of_products (tree_of x) (chain_of ops))"
proof -
  from operands_parse(1) [OF assms(1)] have x: "operand_parses x" .
  from operands_parse(2) [OF assms(2)] have ops: "\<And>p. p \<in> set ops \<Longrightarrow> operand_parses (snd p)"
    by blast
  have "parse_expr (Suc (2 * length (toks_of x @ chain_toks ops) + 1)) None
          (toks_of x @ chain_toks ops @ [])
        = parse_rest (2 * length (toks_of x @ chain_toks ops) + 1) None (tree_of x)
            (chain_toks ops @ [])"
    using x by auto
  also have "\<dots> = Inr (sum_of_products (tree_of x) (chain_of ops), [])"
    by (rule chain_sum_of_products [OF _ assms(2) ops]) (simp_all add: stops_def)
  finally show ?thesis by (simp add: fp_parse_def)
qed


lemma additive_not_multiplicative: "additive b \<Longrightarrow> \<not> multiplicative b"
  by (auto simp: additive_def multiplicative_def)

lemma sum_then_product:
  "additive ab \<Longrightarrow> multiplicative mb \<Longrightarrow>
     sum_of_products x [(ab, y), (mb, z)] = BinOp x ab (BinOp y mb z)"
  by (simp add: sum_of_products_def product_step_def additive_not_multiplicative)

lemma product_then_sum:
  "additive ab \<Longrightarrow> multiplicative mb \<Longrightarrow>
     sum_of_products x [(mb, y), (ab, z)] = BinOp (BinOp x mb y) ab z"
  by (simp add: sum_of_products_def product_step_def additive_not_multiplicative)

lemma single_step: "sum_of_products x [(b, y)] = BinOp x b y"
  by (simp add: sum_of_products_def product_step_def)

lemma parse_two_steps:
  assumes "well_formed x" and "well_formed y" and "well_formed z"
    and "binop_mapping (fst s) = Some sb" and "binop_mapping (fst t) = Some tb"
  shows "fp_parse (toks_of x @ s # toks_of y @ t # toks_of z)
           = Inr (sum_of_products (tree_of x) [(sb, tree_of y), (tb, tree_of z)])"
  using parse_chain [of x "[(s, y), (t, z)]"] assms by (simp add: binop_of_def)

lemma parse_group_first:
  assumes "well_formed x" and "well_formed y" and "well_formed z"
    and "binop_mapping (fst s) = Some sb" and "binop_mapping (fst t) = Some tb"
    and "fst l = LPAREN" and "fst r = RPAREN"
  shows "fp_parse (l # toks_of x @ s # toks_of y @ r # t # toks_of z)
           = Inr (BinOp (BinOp (tree_of x) sb (tree_of y)) tb (tree_of z))"
  using parse_chain [of "Group l x [(s, y)] r" "[(t, z)]"] assms
  by (simp add: binop_of_def single_step)

lemma parse_group_last:
  assumes "well_formed x" and "well_formed y" and "well_formed z"
    and "binop_mapping (fst s) = Some sb" and "binop_mapping (fst t) = Some tb"
    and "fst l = LPAREN" and "fst r = RPAREN"
  shows "fp_parse (toks_of x @ t # l # toks_of y @ s # toks_of z @ [r])
           = Inr (BinOp (tree_of x) tb (BinOp (tree_of y) sb (tree_of z)))"
  using parse_chain [of x "[(t, Group l y [(s, z)] r)]"] assms
  by (simp add: binop_of_def single_step)

text \<open>
  Claim C7: the parser follows the precedence of the specification. For every
  well-formed arithmetic expression, that is every first operand \<open>x\<close> and chain \<open>ops\<close>
  of arithmetic operators and operands, where an operand is a literal or a
  parenthesised expression of the same kind, the tokens parse, and the tree is the sum
  of products of the operands. In particular, for all well-formed operands \<open>x\<close>, \<open>y\<close>,
  \<open>z\<close>, every additive operator token \<open>ta\<close> and every multiplicative one \<open>tm\<close>:
  \<open>x ta y tm z\<close> applies \<open>tm\<close> to \<open>y\<close> and \<open>z\<close> first, \<open>x tm y ta z\<close> applies \<open>tm\<close> to \<open>x\<close>
  and \<open>y\<close> first, and parentheses override both: \<open>(x ta y) tm z\<close> applies \<open>ta\<close>
  first, and so does \<open>x tm (y ta z)\<close>. When the operands have the integer values \<open>i\<close>,
  \<open>j\<close>, \<open>k\<close>, the values of \<open>x + y * z\<close>, \<open>x * y + z\<close> and \<open>(x + y) * z\<close> are
  \<open>i + j * k\<close>, \<open>i * j + k\<close> and \<open>(i + j) * k\<close>. The tokens of \<open>1 + 2 * 3\<close> parse to an
  expression of value 7 and those of \<open>(1 + 2) * 3\<close> to one of value 9, in every context
  and for every host; the template \<open>{{ 1 + 2 * 3 }}\<close> compiles, and rendering it passes
  the value 7 (respectively 9) to \<open>auto_escape\<close> and yields the result. The expression
  lexer is not among the sources: the last part holds for every lexer that gives these
  token sequences (the text of an operator token is not looked at).
\<close>

theorem precedence_render:
  assumes "fl_lex cf s1 = Inr [(NUMBER, ''1''), (PLUS, p), (NUMBER, ''2''), (MUL, m), (NUMBER, ''3'')]"
    and "fl_lex cf s2 = Inr [(LPAREN, l), (NUMBER, ''1''), (PLUS, p), (NUMBER, ''2''), (RPAREN, r),
                             (MUL, m), (NUMBER, ''3'')]"
    and "well_formed x" and "chain_ok ops"
    and "well_formed y" and "well_formed z"
    and "binop_mapping (fst ta) = Some ab" and "additive ab"
    and "binop_mapping (fst tm) = Some mb" and "multiplicative mb"
    and "fst lp = LPAREN" and "fst rp = RPAREN"
    and "eval h c (tree_of x) = Inr (VInt i)" and "eval h c (tree_of y) = Inr (VInt j)"
    and "eval h c (tree_of z) = Inr (VInt k)"
  shows "fp_parse (toks_of x @ chain_toks ops)
           = Inr (sum_of_products (tree_of x) (chain_of ops))
       \<and> fp_parse (toks_of x @ ta # toks_of y @ tm # toks_of z)
           = Inr (BinOp (tree_of x) ab (BinOp (tree_of y) mb (tree_of z)))
       \<and> fp_parse (toks_of x @ tm # toks_of y @ ta # toks_of z)
           = Inr (BinOp (BinOp (tree_of x) mb (tree_of y)) ab (tree_of z))
       \<and> fp_parse (lp # toks_of x @ ta # toks_of y @ rp # tm # toks_of z)
           = Inr (BinOp (BinOp (tree_of x) ab (tree_of y)) mb (tree_of z))
       \<and> fp_parse (toks_of x @ tm # lp # toks_of y @ ta # toks_of z @ [rp])
           = Inr (BinOp (tree_of x) mb (BinOp (tree_of y) ab (tree_of z)))
       \<and> (\<exists>e. fp_parse (toks_of x @ (PLUS, p) # toks_of y @ (MUL, m) # toks_of z) = Inr e
              \<and> eval h c e = Inr (VInt (i + j * k)))
       \<and> (\<exists>e. fp_parse (toks_of x @ (MUL, m) # toks_of y @ (PLUS, p) # toks_of z) = Inr e
              \<and> eval h c e = Inr (VInt (i * j + k)))
       \<and> (\<exists>e. fp_parse (lp # toks_of x @ (PLUS, p) # toks_of y @ rp # (MUL, m) # toks_of z) = Inr e
              \<and> eval h c e = Inr (VInt ((i + j) * k)))
       \<and> (\<exists>e. parse_expression cf s1 = Inr e \<and> eval h c e = Inr (VInt 7))
       \<and> (\<exists>e. parse_expression cf s2 = Inr e \<and> eval h c e = Inr (VInt 9))
       \<and> (\<exists>md. compile_template cf n [Var s1] = Inr md
               \<and> render h d md c = rendered_value h c (VInt 7))
       \<and> (\<exists>md. compile_template cf n [Var s2] = Inr md
               \<and> render h d md c = rendered_value h c (VInt 9))"
proof -
  have plus: "binop_mapping (fst (PLUS, p)) = Some Add"
    and mul: "binop_mapping (fst (MUL, m)) = Some Mult"
    by (simp_all add: binop_mapping_def)
  have am: "additive Add" "multiplicative Mult"
    by (simp_all add: additive_def multiplicative_def)
  have c1: "fp_parse (toks_of x @ chain_toks ops)
           = Inr (sum_of_products (tree_of x) (chain_of ops))"
    by (rule parse_chain [OF assms(3,4)])
  have c2: "fp_parse (toks_of x @ ta # toks_of y @ tm # toks_of z)
           = Inr (BinOp (tree_of x) ab (BinOp (tree_of y) mb (tree_of z)))"
    by (simp add: parse_two_steps [OF assms(3,5,6) assms(7,9)]
          sum_then_product [OF assms(8,10)])
  have c3: "fp_parse (toks_of x @ tm # toks_of y @ ta # toks_of z)
           = Inr (BinOp (BinOp (tree_of x) mb (tree_of y)) ab (tree_of z))"
    by (simp add: parse_two_steps [OF assms(3,5,6) assms(9,7)]
          product_then_sum [OF assms(8,10)])
  have c4: "fp_parse (lp # toks_of x @ ta # toks_of y @ rp # tm # toks_of z)
           = Inr (BinOp (BinOp (tree_of x) ab (tree_of y)) mb (tree_of z))"
    by (rule parse_group_first [OF assms(3,5,6) assms(7,9) assms(11,12)])
  have c5: "fp_parse (toks_of x @ tm # lp # toks_of y @ ta # toks_of z @ [rp])
           = Inr (BinOp (tree_of x) mb (BinOp (tree_of y) ab (tree_of z)))"
    by (rule parse_group_last [OF assms(3,5,6) assms(7,9) assms(11,12)])
  have c6: "\<exists>e. fp_parse (toks_of x @ (PLUS, p) # toks_of y @ (MUL, m) # toks_of z) = Inr e
              \<and> eval h c e = Inr (VInt (i + j * k))"
    using assms(13,14,15)
    by (simp add: parse_two_steps [OF assms(3,5,6) plus mul] sum_then_product [OF am]
          eval_binop_def)
  have c7: "\<exists>e. fp_parse (toks_of x @ (MUL, m) # toks_of y @ (PLUS, p) # toks_of z) = Inr e
              \<and> eval h c e = Inr (VInt (i * j + k))"
    using assms(13,14,15)
    by (simp add: parse_two_steps [OF assms(3,5,6) mul plus] product_then_sum [OF am]
          eval_binop_def)
  have c8: "\<exists>e. fp_parse (lp # toks_of x @ (PLUS, p) # toks_of y @ rp # (MUL, m) # toks_of z) = Inr e
              \<and> eval h c e = Inr (VInt ((i + j) * k))"
    using assms(13,14,15)
    by (simp add: parse_group_first [OF assms(3,5,6) plus mul assms(11,12)] eval_binop_def)
  have c9: "(\<exists>e. parse_expression cf s1 = Inr e \<and> eval h c e = Inr (VInt 7))
       \<and> (\<exists>e. parse_expression cf s2 = Inr e \<and> eval h c e = Inr (VInt 9))
       \<and> (\<exists>md. compile_template cf n [Var s1] = Inr md
               \<and> render h d md c = rendered_value h c (VInt 7))
       \<and> (\<exists>md. compile_template cf n [Var s2] = Inr md
               \<and> render h d md c = rendered_value h c (VInt 9))"
    using assms(1,2)
    by (simp add: compile_defs render_defs parse_mul_first parse_paren_first eval_defs
          rendered_value_def split: sum.splits)
  from c1 c2 c3 c4 c5 c6 c7 c8 c9 show ?thesis by blast
qed

theorem precedence_render_witness:
  "fl_lex sample_collaborators ''1 + 2 * 3''
     = Inr [(NUMBER, ''1''), (PLUS, ''+''), (NUMBER, ''2''), (MUL, ''*''), (NUMBER, ''3'')]
   \<and> fl_lex sample_collaborators ''(1 + 2) * 3''
     = Inr [(LPAREN, ''(''), (NUMBER, ''1''), (PLUS, ''+''), (NUMBER, ''2''), (RPAREN, '')''),
            (MUL, ''*''), (NUMBER, ''3'')]
   \<and> well_formed (Atom (NUMBER, ''2'')) \<and> well_formed (Atom (NUMBER, ''3''))
   \<and> well_formed (Atom (NUMBER, ''4''))
   \<and> chain_ok [((MINUS, ''-''), Atom (NUMBER, ''3'')), ((MUL, ''*''), Atom (NUMBER, ''4'')),
               ((PLUS, ''+''), Group (LPAREN, ''('') (Atom (NUMBER, ''5''))
                                 [((PLUS, ''+''), Atom (NUMBER, ''6''))] (RPAREN, '')'')),
               ((MOD, ''%''), Atom (NUMBER, ''7''))]
   \<and> fp_parse [(NUMBER, ''2''), (MINUS, ''-''), (NUMBER, ''3''), (MUL, ''*''), (NUMBER, ''4''),
               (PLUS, ''+''), (LPAREN, ''(''), (NUMBER, ''5''), (PLUS, ''+''), (NUMBER, ''6''),
               (RPAREN, '')''), (MOD, ''%''), (NUMBER, ''7'')]
       = Inr (BinOp (BinOp (Num 2) Sub (BinOp (Num 3) Mult (Num 4))) Add
                (BinOp (BinOp (Num 5) Add (Num 6)) Mod (Num 7)))
   \<and> fp_parse [(NUMBER, ''2''), (PLUS, ''+''), (NUMBER, ''3''), (MUL, ''*''), (NUMBER, ''4'')]
       = Inr (BinOp (Num 2) Add (BinOp (Num 3) Mult (Num 4)))
   \<and> fp_parse [(NUMBER, ''2''), (MUL, ''*''), (NUMBER, ''3''), (PLUS, ''+''), (NUMBER, ''4'')]
       = Inr (BinOp (BinOp (Num 2) Mult (Num 3)) Add (Num 4))
   \<and> fp_parse [(LPAREN, ''(''), (NUMBER, ''2''), (PLUS, ''+''), (NUMBER, ''3''), (RPAREN, '')''),
               (MUL, ''*''), (NUMBER, ''4'')]
       = Inr (BinOp (BinOp (Num 2) Add (Num 3)) Mult (Num 4))
   \<and> fp_parse [(NUMBER, ''2''), (MUL, ''*''), (LPAREN, ''(''), (NUMBER, ''3''), (PLUS, ''+''),
               (NUMBER, ''4''), (RPAREN, '')'')]
       = Inr (BinOp (Num 2) Mult (BinOp (Num 3) Add (Num 4)))
   \<and> (\<exists>e. fp_parse [(NUMBER, ''2''), (PLUS, ''+''), (NUMBER, ''3''), (MUL, ''*''), (NUMBER, ''4'')]
            = Inr e \<and> eval sample_host Map.empty e = Inr (VInt 14))
   \<and> (\<exists>e. fp_parse [(NUMBER, ''2''), (MUL, ''*''), (NUMBER, ''3''), (PLUS, ''+''), (NUMBER, ''4'')]
            = Inr e \<and> eval sample_host Map.empty e = Inr (VInt 10))
   \<and> (\<exists>e. fp_parse [(LPAREN, ''(''), (NUMBER, ''2''), (PLUS, ''+''), (NUMBER, ''3''),
                     (RPAREN, '')''), (MUL, ''*''), (NUMBER, ''4'')]
            = Inr e \<and> eval sample_host Map.empty e = Inr (VInt 20))
   \<and> (\<exists>md. compile_template sample_collaborators 0 [Var ''1 + 2 * 3''] = Inr md
          \<and> render sample_host 0 md Map.empty = Outcome [VStr [], VStr ''7''] Map.empty None)
   \<and> (\<exists>md. compile_template sample_collaborators 0 [Var ''(1 + 2) * 3''] = Inr md
          \<and> render sample_host 0 md Map.empty = Outcome [VStr [], VStr ''9''] Map.empty None)"
proof -
  let ?ops = "[((MINUS, ''-''), Atom (NUMBER, ''3'')), ((MUL, ''*''), Atom (NUMBER, ''4'')),
               ((PLUS, ''+''), Group (LPAREN, ''('') (Atom (NUMBER, ''5''))
                                 [((PLUS, ''+''), Atom (NUMBER, ''6''))] (RPAREN, '')'')),
               ((MOD, ''%''), Atom (NUMBER, ''7''))]"
  have a: "fl_lex sample_collaborators ''1 + 2 * 3''
     = Inr [(NUMBER, ''1''), (PLUS, ''+''), (NUMBER, ''2''), (MUL, ''*''), (NUMBER, ''3'')]"
    by (simp add: sample_defs)
  have b: "fl_lex sample_collaborators ''(1 + 2) * 3''
     = Inr [(LPAREN, ''(''), (NUMBER, ''1''), (PLUS, ''+''), (NUMBER, ''2''), (RPAREN, '')''),
            (MUL, ''*''), (NUMBER, ''3'')]"
    by (simp add: sample_defs)
  have lit: "parse_literal [(NUMBER, ''2'')] = Inr (Num 2, [])"
    "parse_literal [(NUMBER, ''3'')] = Inr (Num 3, [])"
    "parse_literal [(NUMBER, ''4'')] = Inr (Num 4, [])"
    "parse_literal [(NUMBER, ''5'')] = Inr (Num 5, [])"
    "parse_literal [(NUMBER, ''6'')] = Inr (Num 6, [])"
    "parse_literal [(NUMBER, ''7'')] = Inr (Num 7, [])"
    by (simp_all add: parse_literal_def number_NUMBER_def digit_val_def)
  have wf: "well_formed (Atom (NUMBER, ''2''))" "well_formed (Atom (NUMBER, ''3''))"
    "well_formed (Atom (NUMBER, ''4''))"
    by (simp_all add: lit is_ok_def)
  have ok: "chain_ok ?ops"
    by (simp add: lit is_ok_def binop_mapping_def)
  have ops: "binop_mapping (fst (PLUS, ''+'')) = Some Add" "additive Add"
    "binop_mapping (fst (MUL, ''*'')) = Some Mult" "multiplicative Mult"
    by (simp_all add: binop_mapping_def additive_def multiplicative_def)
  have par: "fst (LPAREN, ''('') = LPAREN" "fst (RPAREN, '')'') = RPAREN"
    by simp_all
  have ev: "eval sample_host Map.empty (tree_of (Atom (NUMBER, ''2''))) = Inr (VInt 2)"
    "eval sample_host Map.empty (tree_of (Atom (NUMBER, ''3''))) = Inr (VInt 3)"
    "eval sample_host Map.empty (tree_of (Atom (NUMBER, ''4''))) = Inr (VInt 4)"
    by (simp_all add: lit)
  have sp: "sum_of_products (tree_of (Atom (NUMBER, ''2''))) (chain_of ?ops)
      = BinOp (BinOp (Num 2) Sub (BinOp (Num 3) Mult (Num 4))) Add
                (BinOp (BinOp (Num 5) Add (Num 6)) Mod (Num 7))"
    by (simp add: lit sum_of_products_def product_step_def multiplicative_def binop_of_def
          binop_mapping_def)
  have r7: "rendered_value sample_host Map.empty (VInt 7)
              = Outcome [VStr [], VStr ''7''] Map.empty None"
    by (simp add: rendered_value_def sample_defs str_of_nat.simps digit_chr_def)
  have r9: "rendered_value sample_host Map.empty (VInt 9)
              = Outcome [VStr [], VStr ''9''] Map.empty None"
    by (simp add: rendered_value_def sample_defs str_of_nat.simps digit_chr_def)
  from precedence_render [OF a b wf(1) ok wf(2) wf(3) ops par ev, of 0 0]
    a b wf ok sp r7 r9
  show ?thesis by (simp add: lit eval_binop_def)
qed



text \<open>
  Claim C1, evaluated on the code: the template
  \<open>{% for i in items %}{{ i }}{% empty %}none{% endfor %}\<close> compiles; with \<open>items\<close>
  empty it renders \<open>none\<close>, and with the two elements \<open>a\<close> and \<open>b\<close> it renders
  \<open>abnone\<close>: the fragments of the empty branch are produced although the iterable
  produced elements.
\<close>

theorem for_empty_branch_after_elements:
  "\<exists>m. compile_template sample_collaborators 0
          [For_tag ''i in items'' [Var ''i''] (Some [CONTENT ''none''])] = Inr m
       \<and> output_text (render sample_host 0 m [''items'' \<mapsto> VList [VStr ''a'', VStr ''b'']])
           = Inr ''abnone''
       \<and> output_text (render sample_host 0 m [''items'' \<mapsto> VList []]) = Inr ''none''"
  by (simp add: compile_defs render_defs sample_defs parse_name split_for_args
        for_else_impl_def for_stmt_def iterate_def assign_target_def eval_defs name_NAME_def)

section \<open>Rendering and the caller's context\<close>

lemma ctx_of_raise [simp]: "ctx_of (raise c e) = c"
  by (simp add: raise_def)

lemma ctx_of_then_do:
  assumes "ctx_of o1 k = c k" and "\<And>c'. ctx_of (kf c') k = c' k"
  shows "ctx_of (then_do o1 kf) k = c k"
  using assms by (simp add: then_do_def Let_def split: option.splits)

lemma assign_target_other:
  "assign_target target v c = Inr c' \<Longrightarrow> k \<notin> set_option (target_key target) \<Longrightarrow> c' k = c k"
  by (auto simp: assign_target_def target_key_def split: expr.splits if_splits)

lemma for_loop_frame:
  assumes "\<And>c'. ctx_of (body c') k = c' k" and "k \<notin> set_option (target_key target)"
  shows "ctx_of (for_loop body target vs c) k = c k"
proof (induction vs arbitrary: c)
  case Nil
  show ?case by simp
next
  case (Cons v vs)
  show ?case
  proof (cases "assign_target target v c")
    case (Inl e)
    then show ?thesis by simp
  next
    case (Inr c')
    have "c' k = c k" using assign_target_other [OF Inr assms(2)] .
    moreover have "ctx_of (then_do (body c') (for_loop body target vs)) k = c' k"
    proof (rule ctx_of_then_do [where c = c'])
      show "ctx_of (body c') k = c' k" by (rule assms(1))
      show "\<And>c''. ctx_of (for_loop body target vs c'') k = c'' k" by (rule Cons.IH)
    qed
    ultimately show ?thesis using Inr by simp
  qed
qed

lemma for_stmt_frame:
  assumes "\<And>c'. ctx_of (body c') k = c' k" and "\<And>c'. ctx_of (orelse c') k = c' k"
    and "k \<notin> set_option (target_key target)"
  shows "ctx_of (for_stmt body orelse target it c) k = c k"
proof (cases "bind_err it iterate")
  case (Inl e)
  then show ?thesis by (simp add: for_stmt_def)
next
  case (Inr vs)
  have "ctx_of (then_do (for_loop body target vs c) orelse) k = c k"
  proof (rule ctx_of_then_do [where c = c])
    show "ctx_of (for_loop body target vs c) k = c k"
      using assms(1) assms(3)
      by (rule for_loop_frame [where body = body and k = k and target = target])
    show "\<And>c'. ctx_of (orelse c') k = c' k" by (rule assms(2))
  qed
  then show ?thesis using Inr by (simp add: for_stmt_def)
qed

lemma own_method_targets:
  "own_method items m = Some f \<Longrightarrow> block_targets (fbody f) \<subseteq> class_targets items"
  by (induction items m rule: own_method.induct) (auto split: option.splits if_splits)

lemma find_method_targets:
  "find_method ks cn m = Some f \<Longrightarrow> block_targets (fbody f) \<subseteq> module_targets ks"
proof (induction ks cn m rule: find_method.induct)
  case (1 c m)
  then show ?case by simp
next
  case (2 k ks c m)
  show ?case
  proof (cases "cname k = c")
    case False
    with 2 show ?thesis by (auto simp: module_targets_def)
  next
    case True
    show ?thesis
    proof (cases "own_method (cbody k) m")
      case (Some g)
      with True "2.prems" have "g = f" by simp
      with Some own_method_targets show ?thesis by (fastforce simp: module_targets_def)
    next
      case None
      with True 2 show ?thesis
        by (auto simp: module_targets_def split: list.splits if_splits)
    qed
  qed
qed

lemma exec_frame:
  assumes "k \<notin> module_targets (classes fr)"
  shows "(k \<notin> stmt_targets s \<longrightarrow> ctx_of (exec_stmt fr d s c) k = c k)"
    and "(k \<notin> block_targets ss \<longrightarrow> ctx_of (exec_block fr d ss c) k = c k)"
  using assms
proof (induction fr d s c and fr d ss c rule: exec_stmt_exec_block.induct)
  case (4 fr d target it body orelse c)
  then show ?case by (auto intro!: for_stmt_frame)
next
  case (6 fr d e c)
  then show ?case
    using find_method_targets by (fastforce split: option.splits)
next
  case (8 fr d s ss c)
  then show ?case by (auto intro!: ctx_of_then_do)
qed (auto split: sum.splits)


lemma exec_module_set:
  "exec_module acc ks = Inr defined \<Longrightarrow> set defined = set acc \<union> set ks"
  by (induction ks arbitrary: acc) (auto split: list.splits)

lemma split_loop_args: "split_tag_args_string ''x in items'' = Inr [''x'', ''in'', ''items'']"
  by (simp add: split_defs)

text \<open>
  Claim C3 as stated fails: rendering \<open>{% for x in items %}a{% endfor %}\<close> with a
  context that has no key \<open>x\<close> leaves the key \<open>x\<close> in the caller's context, bound to
  the last element.
\<close>

theorem render_writes_context_counterexample:
  "compile_template sample_collaborators 0 loop_template = Inr loop_module
   \<and> [''items'' \<mapsto> VList [VInt 1]] ''x'' = None
   \<and> ctx_of (render sample_host 0 loop_module [''items'' \<mapsto> VList [VInt 1]]) ''x''
       = Some (VInt 1)"
  by (simp add: loop_template_def loop_module_def compile_defs render_defs sample_defs
        parse_name split_loop_args for_impl_def for_else_impl_def for_stmt_def iterate_def
        assign_target_def eval_defs name_NAME_def)

text \<open>
  Claim C3, as the code has it: expressions only read the context, and the one write
  of the generated code is the target of a \<open>for\<close> loop, which stores each element in
  the caller's context under the loop's name. So for every compiled unit, host, depth
  bound and context, every key that is not the target of a \<open>for\<close> loop of the unit has
  the same value (or absence) after rendering as before, whether rendering ends
  normally or with an exception. The host's callables are functions of their arguments
  here; a callable that changes the context behind the core's back is outside the
  model.
\<close>

theorem render_context_frame:
  "k \<notin> module_targets m \<Longrightarrow> ctx_of (render h d m c) k = c k"
proof -
  assume k: "k \<notin> module_targets m"
  show ?thesis
  proof (cases "exec_module [] m")
    case (Inl e)
    then show ?thesis by (simp add: render_def)
  next
    case (Inr defined)
    then have "set defined = set m" using exec_module_set by fastforce
    then have kd: "k \<notin> module_targets defined" using k by (simp add: module_targets_def)
    show ?thesis
    proof (cases "find_method defined (class_name (ParserState 0)) ''root''")
      case None
      with Inr show ?thesis by (simp add: render_def)
    next
      case (Some f)
      let ?fr = "\<lparr>host_of = h, classes = defined, self_class = class_name (ParserState 0)\<rparr>"
      have "k \<notin> block_targets (fbody f)" using find_method_targets [OF Some] kd by auto
      moreover have "k \<notin> module_targets (classes ?fr)" using kd by simp
      ultimately have "ctx_of (exec_block ?fr d (fbody f) c) k = c k"
        using exec_frame(2) by blast
      with Inr Some show ?thesis by (simp add: render_def)
    qed
  qed
qed

theorem render_context_frame_witness:
  "''items'' \<notin> module_targets loop_module
   \<and> ctx_of (render sample_host 0 loop_module [''items'' \<mapsto> VList [VInt 1]]) ''items''
       = Some (VList [VInt 1])"
proof -
  have a: "''items'' \<notin> module_targets loop_module"
    by (simp add: loop_module_def module_targets_def target_key_def)
  from render_context_frame [OF a, of sample_host 0 "[''items'' \<mapsto> VList [VInt 1]]"] a
  show ?thesis by simp
qed

section \<open>Block names\<close>

lemma first_dup_append:
  "first_dup seen (a @ b)
     = (case first_dup seen a of Some y \<Rightarrow> Some y | None \<Rightarrow> first_dup (seen @ a) b)"
  by (induction a arbitrary: seen) (auto split: option.splits)

lemma registers_ret: "registers st [] (Inr (st, p))"
  by (simp add: registers_def)

lemma registers_bind:
  assumes "registers st ns r"
    and "\<And>st' p. block_keys st' = block_keys st @ ns \<Longrightarrow> level st' = level st \<Longrightarrow>
            base_class st' = base_class st \<Longrightarrow> klass st' = klass st \<Longrightarrow>
            registers st' ms (f (st', p))"
  shows "registers st (ns @ ms) (bind_err r f)"
proof (cases "first_dup (block_keys st) ns")
  case (Some y)
  with assms(1) show ?thesis by (simp add: registers_def first_dup_append)
next
  case None
  with assms(1) obtain st' p where r: "r = Inr (st', p)"
    and k: "block_keys st' = block_keys st @ ns" and l: "level st' = level st"
    and b: "base_class st' = base_class st" and c: "klass st' = klass st"
    by (auto simp: registers_def)
  from assms(2) [OF k l b c] have "registers st' ms (f (st', p))" .
  with None r k l b c show ?thesis
    by (auto simp: registers_def first_dup_append split: option.splits)
qed

lemma registers_bind0:
  assumes "registers st ns r"
    and "\<And>st' p. block_keys st' = block_keys st @ ns \<Longrightarrow> level st' = level st \<Longrightarrow>
            base_class st' = base_class st \<Longrightarrow> klass st' = klass st \<Longrightarrow>
            registers st' [] (f (st', p))"
  shows "registers st ns (bind_err r f)"
  using registers_bind [OF assms(1), of "[]" f] assms(2) by simp

lemma registers_pure:
  "is_ok a \<Longrightarrow> registers st [] (bind_err a (\<lambda>p. Inr (st, p)))"
  by (cases a) (simp_all add: is_ok_def registers_def)

lemma registers_cong:
  "registers st2 ms r \<Longrightarrow> block_keys st2 = block_keys st1 \<Longrightarrow> level st2 = level st1 \<Longrightarrow>
   base_class st2 = base_class st1 \<Longrightarrow> klass st2 = klass st1 \<Longrightarrow> registers st1 ms r"
  by (auto simp: registers_def split: option.splits)

lemma var_impl_ok: "is_ok (parse_expression cf s) \<Longrightarrow> is_ok (var_impl cf s)"
  by (cases "parse_expression cf s") (simp_all add: is_ok_def var_impl_def)

lemma if_impl_ok: "is_ok (parse_expression cf a) \<Longrightarrow> is_ok (if_impl cf a b)"
  by (cases "parse_expression cf a") (simp_all add: is_ok_def if_impl_def)

lemma if_else_impl_ok: "is_ok (parse_expression cf a) \<Longrightarrow> is_ok (if_else_impl cf a b e)"
  by (cases "parse_expression cf a") (simp_all add: is_ok_def if_else_impl_def)

lemma for_else_impl_ok:
  assumes "is_ok (for_else_impl cf a [] [])"
  shows "is_ok (for_else_impl cf a b e)"
proof (cases "bind_err (split_tag_args_string a) unpack3")
  case (Inl er)
  with assms show ?thesis by (simp add: is_ok_def for_else_impl_def)
next
  case (Inr t)
  obtain tg i v where t: "t = (tg, i, v)" by (cases t) auto
  show ?thesis
  proof (cases "parse_expression cf v")
    case (Inl er)
    with assms Inr t show ?thesis
      by (simp add: is_ok_def for_else_impl_def split: if_splits)
  next
    case (Inr it)
    with assms \<open>bind_err (split_tag_args_string a) unpack3 = Inr t\<close> t show ?thesis
      by (simp add: is_ok_def for_else_impl_def split: if_splits)
  qed
qed

lemma for_impl_ok: "is_ok (for_else_impl cf a [] []) \<Longrightarrow> is_ok (for_impl cf a b)"
  by (simp add: for_impl_def for_else_impl_ok)

lemma keys_dict_set_new:
  "k \<notin> fst ` set d \<Longrightarrow> map fst (dict_set k v d) = map fst d @ [k]"
  by (induction d) auto

lemma keys_dict_set_old:
  "k \<in> fst ` set d \<Longrightarrow> map fst (dict_set k v d) = map fst d"
  by (induction d) auto

lemma registers_block:
  "block_name a = Some nm \<Longrightarrow> registers st [nm] (block_impl st a b)"
  by (cases "bind_err (split_tag_args_string a) unpack1")
     (auto simp: block_name_def block_impl_def add_function_def registers_def block_keys_def
        keys_dict_set_new)


lemma map_of_key: "k \<in> fst ` set d \<Longrightarrow> \<exists>v. map_of d k = Some v"
  by (induction d) auto

lemma doc_first_dup:
  "''root'' \<in> set (block_keys st) \<Longrightarrow> doc_first st p = Inl (DuplicateBlockError ''root'')"
  by (simp add: doc_first_def build_class_def add_function_def block_keys_def Let_def)

lemma doc_first_new:
  assumes "''root'' \<notin> set (block_keys st)"
  shows "\<exists>st'. doc_first st p = Inr st' \<and> block_keys st' = block_keys st @ [''root'']
           \<and> level st' = level st \<and> base_class st' = base_class st \<and> klass st' \<noteq> None"
proof -
  let ?d = "dict_set ''root'' (build_function ''root'' []) (functions_d st)"
  have k: "map fst ?d = map fst (functions_d st) @ [''root'']"
    using assms by (simp add: keys_dict_set_new block_keys_def)
  then have "''root'' \<in> fst ` set ?d"
    by (metis in_set_conv_decomp list.set_map)
  then obtain f where f: "map_of ?d ''root'' = Some f" using map_of_key by fastforce
  from \<open>''root'' \<in> fst ` set ?d\<close> have
    "map fst (dict_set ''root'' (FunctionDef (fname f) (fbody f @ [p])) ?d) = map fst ?d"
    by (rule keys_dict_set_old)
  with assms k f show ?thesis
    by (simp add: doc_first_def build_class_def add_function_def append_to_block_def
          block_keys_def Let_def)
qed

lemma doc_next_ok:
  assumes "''root'' \<in> set (block_keys st)"
  shows "\<exists>st'. doc_next st x p = Inr st' \<and> block_keys st' = block_keys st
           \<and> level st' = level st \<and> base_class st' = base_class st \<and> klass st' = klass st"
proof -
  from assms have r: "''root'' \<in> fst ` set (functions_d st)" by (simp add: block_keys_def)
  then obtain f where f: "map_of (functions_d st) ''root'' = Some f"
    using map_of_key by fastforce
  from r have "map fst (dict_set ''root'' (FunctionDef (fname f) (fbody f @ [p])) (functions_d st))
                 = map fst (functions_d st)"
    by (rule keys_dict_set_old)
  with f show ?thesis
    by (cases x) (simp_all add: doc_next_def append_to_block_def block_keys_def)
qed

lemma parse_registers:
  shows "tag_ok cf x \<Longrightarrow> registers st (item_names x) (parse_item cf n st x)"
    and "xs \<noteq> [] \<Longrightarrow> items_ok cf xs \<Longrightarrow> registers st (items_names xs) (parse_inner cf n st xs)"
    and "items_ok cf xs \<Longrightarrow> registers st (items_names xs) (parse_inner_rest cf n st acc xs)"
    and "xs \<noteq> [] \<Longrightarrow> items_ok cf xs \<Longrightarrow>
         (case first_dup (block_keys st) (registered xs) of
            Some y \<Rightarrow> parse_doc cf n st xs = Inl (DuplicateBlockError y)
          | None \<Rightarrow>
              (\<exists>st' doc. parse_doc cf n st xs = Inr (st', doc)
                 \<and> block_keys st' = block_keys st @ registered xs
                 \<and> base_class st' = base_class st \<and> klass st' \<noteq> None))"
    and "items_ok cf xs \<Longrightarrow> ''root'' \<in> set (block_keys st) \<Longrightarrow>
         registers st (items_names xs) (parse_doc_rest cf n st doc xs)"
proof (induction cf n st x and cf n st xs and cf n st acc xs and cf n st xs and cf n st doc xs
        rule: parse_item_parse_inner_parse_inner_rest_parse_doc_parse_doc_rest.induct)
  case (1 cf n st s)
  show ?case by (simp add: registers_ret)
next
  case (2 cf n st s)
  then show ?case by (simp add: registers_pure var_impl_ok)
next
  case (3 cf n st s)
  show ?case by (simp add: registers_ret)
next
  case (4 cf n st a body)
  then show ?case
    by (auto intro!: registers_bind0 registers_pure if_impl_ok)
next
  case (5 cf n st a body orelse)
  then have b: "registers st (items_names body) (parse_inner cf n st body)"
    and o: "\<And>st1. registers st1 (items_names orelse) (parse_inner cf n st1 orelse)"
    and ok: "\<And>b e. is_ok (if_else_impl cf a b e)"
    by (simp_all add: if_else_impl_ok)
  show ?case
    apply simp
    apply (rule registers_bind [OF b])
    apply simp
    apply (rule registers_bind0 [OF o])
    apply (simp add: registers_pure ok)
    done
next
  case (6 cf n st a body)
  then show ?case
    by (auto intro!: registers_bind0 registers_pure for_impl_ok)
next
  case (7 cf n st a body orelse)
  then have b: "registers st (items_names body) (parse_inner cf n st body)"
    and o: "\<And>st1. registers st1 (items_names orelse) (parse_inner cf n st1 orelse)"
    and ok: "\<And>b e. is_ok (for_else_impl cf a b e)"
    by (simp_all add: for_else_impl_ok)
  show ?case
    apply simp
    apply (rule registers_bind [OF b])
    apply simp
    apply (rule registers_bind0 [OF o])
    apply (simp add: registers_pure ok)
    done
next
  case (8 cf n st a body)
  then show ?case
    by (auto intro!: registers_bind registers_block)
next
  case (9 cf st a)
  then show ?case by simp
next
  case (10 cf n st a)
  then show ?case by simp
next
  case (11 cf n st)
  then show ?case by simp
next
  case (12 cf n st x xs)
  then show ?case
    by (auto intro!: registers_bind)
next
  case (13 cf n st inner)
  show ?case by (simp add: registers_ret)
next
  case (14 cf n st inner x xs)
  then show ?case
    by (auto intro!: registers_bind)
next
  case (15 cf n st)
  then show ?case by simp
next
  case (16 cf n st x xs)
  then have i: "registers st (item_names x) (parse_item cf n st x)"
    and r: "\<And>st2. ''root'' \<in> set (block_keys st2) \<Longrightarrow>
              registers st2 (items_names xs) (parse_doc_rest cf n st2 (module_body st2) xs)"
    by simp_all
  show ?case
  proof (cases "first_dup (block_keys st) (item_names x)")
    case (Some y)
    with i show ?thesis by (simp add: registers_def first_dup_append)
  next
    case None
    with i obtain st1 p where p: "parse_item cf n st x = Inr (st1, p)"
      and k1: "block_keys st1 = block_keys st @ item_names x"
      and b1: "base_class st1 = base_class st"
      by (auto simp: registers_def)
    show ?thesis
    proof (cases "''root'' \<in> set (block_keys st1)")
      case True
      with None p k1 show ?thesis
        by (simp add: doc_first_dup first_dup_append)
    next
      case False
      then obtain st2 where d: "doc_first st1 p = Inr st2"
        and k2: "block_keys st2 = block_keys st1 @ [''root'']"
        and b2: "base_class st2 = base_class st1" and c2: "klass st2 \<noteq> None"
        using doc_first_new by blast
      from k2 have "''root'' \<in> set (block_keys st2)" by simp
      from r [OF this] None False p d k1 k2 b1 b2 c2 show ?thesis
        by (auto simp: registers_def first_dup_append split: option.splits)
    qed
  qed
next
  case (17 cf n st doc)
  show ?case by (simp add: registers_ret)
next
  case (18 cf n st doc x xs)
  then have i: "registers st (item_names x) (parse_item cf n st x)"
    and r: "\<And>st2. ''root'' \<in> set (block_keys st2) \<Longrightarrow>
              registers st2 (items_names xs) (parse_doc_rest cf n st2 doc xs)"
    and root: "''root'' \<in> set (block_keys st)"
    by simp_all
  have step: "registers st' (items_names xs)
                ((\<lambda>(st1, p). bind_err (doc_next st1 x p)
                     (\<lambda>st2. parse_doc_rest cf n st2 doc xs)) (st', p))"
    if k: "block_keys st' = block_keys st @ item_names x" for st' p
  proof -
    from k root have "''root'' \<in> set (block_keys st')" by simp
    then obtain st2 where d: "doc_next st' x p = Inr st2"
      and e: "block_keys st2 = block_keys st'" "level st2 = level st'"
             "base_class st2 = base_class st'" "klass st2 = klass st'"
      using doc_next_ok by blast
    from e(1) \<open>''root'' \<in> set (block_keys st')\<close> have "''root'' \<in> set (block_keys st2)"
      by simp
    from registers_cong [OF r [OF this] e] d show ?thesis by simp
  qed
  from registers_bind [OF i step] show ?case by simp
qed


lemma first_dup_count:
  "first_dup seen l = Some y \<Longrightarrow> 2 \<le> count_list (seen @ l) y"
proof (induction l arbitrary: seen)
  case Nil
  then show ?case by simp
next
  case (Cons a l)
  show ?case
  proof (cases "a \<in> set seen")
    case True
    with Cons.prems have "y = a" by simp
    moreover from True have "0 < count_list seen a"
      using count_list_0_iff [of seen a] by auto
    ultimately show ?thesis by simp
  next
    case False
    with Cons.prems have "first_dup (seen @ [a]) l = Some y" by simp
    from Cons.IH [OF this] show ?thesis by simp
  qed
qed

lemma first_dup_none:
  "first_dup seen l = None \<Longrightarrow> distinct seen \<Longrightarrow> distinct (seen @ l)"
proof (induction l arbitrary: seen)
  case Nil
  then show ?case by simp
next
  case (Cons a l)
  then have "a \<notin> set seen" and "first_dup (seen @ [a]) l = None"
    by (simp_all split: if_splits)
  with Cons.IH [of "seen @ [a]"] Cons.prems(2) show ?case by simp
qed

lemma distinct_count_le1: "distinct xs \<Longrightarrow> count_list xs y \<le> 1"
  by (induction xs) auto

lemma compile_registers:
  assumes "d \<noteq> []" and "items_ok cf d"
  shows "case first_dup [] (registered d) of
           Some y \<Rightarrow> compile_template cf n d = Inl (DuplicateBlockError y)
         | None \<Rightarrow> (\<exists>m. compile_template cf n d = Inr m)"
proof -
  have e: "block_keys (ParserState 0) = []" "base_class (ParserState 0) = ''object''"
    by (simp_all add: block_keys_def ParserState_def)
  from parse_registers(4) [OF assms, where st = "ParserState 0" and n = n] e show ?thesis
    by (auto simp: compile_template_def compile_level_def finalize_def Let_def split: option.splits)
qed

lemma compile_dup:
  assumes "d \<noteq> []" and "items_ok cf d" and "\<not> distinct (registered d)"
  shows "\<exists>y. compile_template cf n d = Inl (DuplicateBlockError y)
             \<and> 2 \<le> count_list (registered d) y"
proof (cases "first_dup [] (registered d)")
  case None
  from first_dup_none [OF None] assms(3) show ?thesis by simp
next
  case (Some y)
  from first_dup_count [OF Some] compile_registers [OF assms(1,2), of n] Some
  show ?thesis by simp
qed

lemma count_registered:
  "d \<noteq> [] \<Longrightarrow>
   count_list (registered d) y = count_list (items_names d) y + (if y = ''root'' then 1 else 0)"
  by (cases d) auto

text \<open>
  Claim C6: a template of one inheritance level (no \<open>extends\<close> tag) in which nothing
  but a block name can go wrong, and which defines the block name \<open>x\<close> twice, does not
  compile: compilation fails with a duplicate-block error, and the error names a block
  name that is registered twice (\<open>root\<close> counts as registered once by the implicit root
  procedure). \<open>add_function\<close> raises at the first second registration, so when \<open>x\<close> is
  the only repeated name, the error names \<open>x\<close>.
\<close>

theorem duplicate_block_fails:
  assumes "d \<noteq> []" and "items_ok cf d" and "2 \<le> count_list (items_names d) x"
  shows "(\<exists>y. compile_template cf n d = Inl (DuplicateBlockError y)
              \<and> 2 \<le> count_list (registered d) y)
       \<and> ((\<forall>y. 2 \<le> count_list (registered d) y \<longrightarrow> y = x)
            \<longrightarrow> compile_template cf n d = Inl (DuplicateBlockError x))"
proof -
  from assms(1,3) have c: "2 \<le> count_list (registered d) x"
    by (simp add: count_registered)
  then have "\<not> distinct (registered d)"
    using distinct_count_le1 [of "registered d" x] by auto
  from compile_dup [OF assms(1,2) this, of n] show ?thesis by auto
qed

theorem duplicate_block_fails_witness:
  "[Block_tag ''x'' [CONTENT ''a''], Block_tag ''x'' [CONTENT ''b'']] \<noteq> []
   \<and> items_ok sample_collaborators [Block_tag ''x'' [CONTENT ''a''], Block_tag ''x'' [CONTENT ''b'']]
   \<and> 2 \<le> count_list (items_names [Block_tag ''x'' [CONTENT ''a''], Block_tag ''x'' [CONTENT ''b'']]) ''x''
   \<and> {y. 2 \<le> count_list (registered [Block_tag ''x'' [CONTENT ''a''], Block_tag ''x'' [CONTENT ''b'']]) y}
       = {''x''}
   \<and> compile_template sample_collaborators 0
        [Block_tag ''x'' [CONTENT ''a''], Block_tag ''x'' [CONTENT ''b'']]
       = Inl (DuplicateBlockError ''x'')"
proof -
  let ?d = "[Block_tag ''x'' [CONTENT ''a''], Block_tag ''x'' [CONTENT ''b'']]"
  have n: "block_name ''x'' = Some ''x''"
    by (simp add: block_name_def split_defs)
  have a: "?d \<noteq> []" by simp
  have b: "items_ok sample_collaborators ?d" by (simp add: n)
  have c: "2 \<le> count_list (items_names ?d) ''x''" by (simp add: n)
  have e: "\<forall>y. 2 \<le> count_list (registered ?d) y \<longrightarrow> y = ''x''"
    by (auto simp: n split: if_splits)
  from e have s: "{y. 2 \<le> count_list (registered ?d) y} = {''x''}"
    by (auto simp: n)
  from duplicate_block_fails [OF a b c, of 0] a b c e s show ?thesis by blast
qed

text \<open>
  Claim C10: a template of one inheritance level in which nothing but a block name can
  go wrong, and which has a block named \<open>root\<close>, does not compile: \<open>build_class\<close>
  registers the root procedure under the name \<open>root\<close> with the same \<open>add_function\<close>
  as the blocks, so compilation fails with a duplicate-block error; when no block name
  is repeated among the blocks themselves (in particular with exactly one block
  \<open>root\<close>), the error names \<open>root\<close>.
\<close>

theorem block_root_fails:
  assumes "d \<noteq> []" and "items_ok cf d" and "''root'' \<in> set (items_names d)"
  shows "(\<exists>y. compile_template cf n d = Inl (DuplicateBlockError y)
              \<and> 2 \<le> count_list (registered d) y)
       \<and> (distinct (items_names d)
            \<longrightarrow> compile_template cf n d = Inl (DuplicateBlockError ''root''))"
proof -
  from assms(3) have "0 < count_list (items_names d) ''root''"
    using count_list_0_iff [of "items_names d" "''root''"] by auto
  with assms(1) have c: "2 \<le> count_list (registered d) ''root''"
    by (simp add: count_registered)
  then have "\<not> distinct (registered d)"
    using distinct_count_le1 [of "registered d" "''root''"] by auto
  from compile_dup [OF assms(1,2) this, of n]
  obtain y where y: "compile_template cf n d = Inl (DuplicateBlockError y)"
    and cy: "2 \<le> count_list (registered d) y" by blast
  have "y = ''root''" if "distinct (items_names d)"
  proof (rule ccontr)
    assume "y \<noteq> ''root''"
    with cy assms(1) have "2 \<le> count_list (items_names d) y" by (simp add: count_registered)
    with that show False using distinct_count_le1 [of "items_names d" y] by simp
  qed
  with y cy show ?thesis by auto
qed

theorem block_root_fails_witness:
  "[CONTENT ''a'', Block_tag ''root'' [CONTENT ''b'']] \<noteq> []
   \<and> items_ok sample_collaborators [CONTENT ''a'', Block_tag ''root'' [CONTENT ''b'']]
   \<and> ''root'' \<in> set (items_names [CONTENT ''a'', Block_tag ''root'' [CONTENT ''b'']])
   \<and> distinct (items_names [CONTENT ''a'', Block_tag ''root'' [CONTENT ''b'']])
   \<and> compile_template sample_collaborators 0 [CONTENT ''a'', Block_tag ''root'' [CONTENT ''b'']]
       = Inl (DuplicateBlockError ''root'')"
proof -
  let ?d = "[CONTENT ''a'', Block_tag ''root'' [CONTENT ''b'']]"
  have n: "block_name ''root'' = Some ''root''"
    by (simp add: block_name_def split_defs)
  have a: "?d \<noteq> []" by simp
  have b: "items_ok sample_collaborators ?d" by (simp add: n)
  have c: "''root'' \<in> set (items_names ?d)" by (simp add: n)
  have e: "distinct (items_names ?d)" by (simp add: n)
  from block_root_fails [OF a b c, of 0] a b c e show ?thesis by blast
qed


section \<open>Template inheritance\<close>








lemma items_names_concat: "items_names xs = concat (map item_names xs)"
  by (induction xs) auto



























end
